theory Spec2Isabelle
  imports Complex_Main "HOL-Library.Word"
begin

unbundle bit_operations_syntax

section \<open>Host environment\<close>

text \<open>
  The decoder of \<^verbatim>\<open>blurest-wc/src/blurhash.ts\<close> computes on JavaScript numbers, which are
  IEEE-754 doubles. A double operation is the exact operation on reals followed by a
  rounding to the nearest double. The rounding and the host's library functions
  (\<^verbatim>\<open>Math.pow\<close>, \<^verbatim>\<open>Math.cos\<close>, \<^verbatim>\<open>Math.PI\<close>, the printing of a number in a template
  string) are not part of the repository: they are fields of a record that every
  numeric function takes as its first argument. Whole numbers in the range where
  doubles are exact are \<open>nat\<close> or \<open>int\<close>. Non-finite doubles (\<^verbatim>\<open>Infinity\<close>) are not
  represented; \<^verbatim>\<open>NaN\<close> is, where an argument can be one.
\<close>

record host =
  rnd :: "real \<Rightarrow> real"
  Math_pow :: "real \<Rightarrow> real \<Rightarrow> real"
  Math_cos :: "real \<Rightarrow> real"
  Math_PI :: real
  numberToString :: "real \<Rightarrow> string"

definition lit :: "host \<Rightarrow> real \<Rightarrow> real" where
  "lit H c = rnd H c"

definition fadd :: "host \<Rightarrow> real \<Rightarrow> real \<Rightarrow> real" where
  "fadd H a b = rnd H (a + b)"

definition fsub :: "host \<Rightarrow> real \<Rightarrow> real \<Rightarrow> real" where
  "fsub H a b = rnd H (a - b)"

definition fmul :: "host \<Rightarrow> real \<Rightarrow> real \<Rightarrow> real" where
  "fmul H a b = rnd H (a * b)"

definition fdiv :: "host \<Rightarrow> real \<Rightarrow> real \<Rightarrow> real" where
  "fdiv H a b = rnd H (a / b)"

text \<open>\<^verbatim>\<open>Math.trunc\<close> and \<^verbatim>\<open>Math.round\<close> (half-way cases go up) on a finite number.\<close>

definition Math_trunc :: "real \<Rightarrow> int" where
  "Math_trunc x = (if 0 \<le> x then \<lfloor>x\<rfloor> else \<lceil>x\<rceil>)"

definition Math_round :: "real \<Rightarrow> int" where
  "Math_round x = \<lfloor>x + 1 / 2\<rfloor>"

text \<open>A number argument that may be \<^verbatim>\<open>NaN\<close>.\<close>

datatype number = Num real | NaN

section \<open>Strings\<close>

text \<open>Decimal printing of a non-negative integer, as a template string prints it.\<close>

definition digit_char :: "nat \<Rightarrow> char" where
  "digit_char d = ''0123456789'' ! d"

function show_nat :: "nat \<Rightarrow> string" where
  "show_nat n = (if n < 10 then [digit_char n] else show_nat (n div 10) @ [digit_char (n mod 10)])"
  by pat_completeness auto
termination
  by (relation "measure (\<lambda>n. n)") auto

declare show_nat.simps [simp del]

definition show_int :: "int \<Rightarrow> string" where
  "show_int i = (if i < 0 then ''-'' @ show_nat (nat (- i)) else show_nat (nat i))"

text \<open>
  The exact host: no rounding error and the mathematical functions. It prints a whole
  number in decimal and leaves every other number as a question mark.
\<close>

definition exact_host :: host where
  "exact_host = \<lparr> rnd = (\<lambda>x. x), Math_pow = (\<lambda>x y. x powr y), Math_cos = cos,
     Math_PI = pi,
     numberToString = (\<lambda>x. if of_int \<lfloor>x\<rfloor> = x then show_int \<lfloor>x\<rfloor> else ''?'') \<rparr>"

text \<open>
  The host of the running code. Every double operation returns the double nearest to
  the exact result, and of two nearest doubles the one with the even significand. A
  double that is neither zero nor subnormal has a significand of 53 bits: between two
  consecutive powers of 2, \<^verbatim>\<open>2^e\<close> and \<^verbatim>\<open>2^(e+1)\<close>, the doubles are the whole multiples
  of \<^verbatim>\<open>2^(e-52)\<close>. Overflow and subnormal results are not represented. The library
  functions are taken as correctly rounded.
\<close>

definition round_half_even :: "real \<Rightarrow> int" where
  "round_half_even x =
     (let n = \<lfloor>x\<rfloor>; d = x - of_int n
      in if d < 1 / 2 then n else if 1 / 2 < d then n + 1 else if even n then n else n + 1)"

definition binary64 :: "real \<Rightarrow> real" where
  "binary64 x =
     (if x = 0 then 0
      else let e = \<lfloor>log 2 \<bar>x\<bar>\<rfloor> - 52
           in of_int (round_half_even (x / 2 powr of_int e)) * 2 powr of_int e)"

definition double_host :: host where
  "double_host = \<lparr> rnd = binary64, Math_pow = (\<lambda>x y. binary64 (x powr y)),
     Math_cos = (\<lambda>x. binary64 (cos x)), Math_PI = binary64 pi,
     numberToString = numberToString exact_host \<rparr>"

text \<open>\<^verbatim>\<open>Array.prototype.join\<close>.\<close>

fun join :: "string \<Rightarrow> string list \<Rightarrow> string" where
  "join sep [] = []"
| "join sep [x] = x"
| "join sep (x # y # ys) = x @ sep @ join sep (y # ys)"

text \<open>\<^verbatim>\<open>String.prototype.substring\<close> for \<open>start \<le> stop\<close>; both are clamped to the length.\<close>

definition substring :: "string \<Rightarrow> nat \<Rightarrow> nat \<Rightarrow> string" where
  "substring s start stop = take (stop - start) (drop start s)"

text \<open>Whether a text occurs inside a message.\<close>

fun is_prefix :: "string \<Rightarrow> string \<Rightarrow> bool" where
  "is_prefix [] s = True"
| "is_prefix (p # ps) [] = False"
| "is_prefix (p # ps) (c # cs) = (p = c \<and> is_prefix ps cs)"

fun mentions :: "string \<Rightarrow> string \<Rightarrow> bool" where
  "mentions [] t = (t = [])"
| "mentions (c # cs) t = (is_prefix t (c # cs) \<or> mentions cs t)"

section \<open>Base83\<close>

datatype error = ValidationError string | Error string

definition BASE83_CHARS :: string where
  "BASE83_CHARS =
     ''0123456789ABCDEFGHIJKLMNOPQRSTUVWXYZabcdefghijklmnopqrstuvwxyz#$%*+,-.:;=?@[]^_{|}~''"

text \<open>\<^verbatim>\<open>Array.prototype.indexOf\<close>; \<open>None\<close> is the result \<open>-1\<close>.\<close>

fun indexOf :: "'a list \<Rightarrow> 'a \<Rightarrow> nat option" where
  "indexOf [] c = None"
| "indexOf (x # xs) c = (if x = c then Some 0 else map_option Suc (indexOf xs c))"

text \<open>
  \<^verbatim>\<open>decode83\<close>: the loop over the characters of \<open>str\<close>, with the running \<open>value\<close>.
  The callers pass at most four characters, so the value stays below \<open>83 ^ 4\<close> and the
  double arithmetic of the source is exact.
\<close>

fun decode83_loop :: "nat \<Rightarrow> string \<Rightarrow> error + nat" where
  "decode83_loop value [] = Inr value"
| "decode83_loop value (c # cs) =
     (case indexOf BASE83_CHARS c of
        None \<Rightarrow> Inl (ValidationError (''Invalid base83 character: '' @ [c]))
      | Some digit \<Rightarrow> decode83_loop (value * 83 + digit) cs)"

definition decode83 :: "string \<Rightarrow> error + nat" where
  "decode83 str = decode83_loop 0 str"

section \<open>The placeholder decoder\<close>

definition sRGBToLinear :: "host \<Rightarrow> real \<Rightarrow> real" where
  "sRGBToLinear H value =
     (let v = fdiv H value 255 in
      if v \<le> lit H 0.04045 then fdiv H v (lit H 12.92)
      else Math_pow H (fdiv H (fadd H v (lit H 0.055)) (lit H 1.055)) (lit H 2.4))"

definition linearTosRGB :: "host \<Rightarrow> real \<Rightarrow> int" where
  "linearTosRGB H value =
     (let v = max 0 (min 1 value) in
      if v \<le> lit H 0.0031308
      then Math_trunc (fadd H (fmul H (fmul H v (lit H 12.92)) 255) (lit H 0.5))
      else Math_trunc (fadd H (fmul H (fsub H (fmul H (lit H 1.055)
             (Math_pow H v (fdiv H 1 (lit H 2.4)))) (lit H 0.055)) 255) (lit H 0.5)))"

definition sign :: "real \<Rightarrow> real" where
  "sign n = (if n < 0 then - 1 else 1)"

definition signPow :: "host \<Rightarrow> real \<Rightarrow> real \<Rightarrow> real" where
  "signPow H val ex = fmul H (sign val) (Math_pow H \<bar>val\<bar> ex)"

definition numX_of :: "nat \<Rightarrow> nat" where
  "numX_of sizeFlag = sizeFlag mod 9 + 1"

definition numY_of :: "nat \<Rightarrow> nat" where
  "numY_of sizeFlag = sizeFlag div 9 + 1"

definition length_mismatch :: "nat \<Rightarrow> nat \<Rightarrow> string" where
  "length_mismatch actual expected =
     ''blurhash length mismatch: length is '' @ show_nat actual @
     '' but it should be '' @ show_nat expected"

definition validateBlurhash :: "string \<Rightarrow> error + unit" where
  "validateBlurhash blurhash =
     (if blurhash = [] \<or> length blurhash < 6
      then Inl (ValidationError ''The blurhash string must be at least 6 characters'')
      else case decode83 [blurhash ! 0] of
             Inl e \<Rightarrow> Inl e
           | Inr sizeFlag \<Rightarrow>
               let numY = numY_of sizeFlag; numX = numX_of sizeFlag in
               if length blurhash \<noteq> 4 + 2 * numX * numY
               then Inl (ValidationError
                      (length_mismatch (length blurhash) (4 + 2 * numX * numY)))
               else Inr ())"

type_synonym color = "real \<times> real \<times> real"

text \<open>
  \<^verbatim>\<open>decodeDC\<close>: the shifts and masks of the source act on the 32-bit integer of the value.
\<close>

definition decodeDC :: "host \<Rightarrow> nat \<Rightarrow> color" where
  "decodeDC H value =
     (let w = (word_of_nat value :: 32 word);
          intR = sint (signed_drop_bit 16 w);
          intG = sint (signed_drop_bit 8 w AND 255);
          intB = sint (w AND 255)
      in (sRGBToLinear H (real_of_int intR), sRGBToLinear H (real_of_int intG),
          sRGBToLinear H (real_of_int intB)))"

definition decodeAC :: "host \<Rightarrow> nat \<Rightarrow> real \<Rightarrow> color" where
  "decodeAC H value maximumValue =
     (let quantR = value div (19 * 19);
          quantG = (value div 19) mod 19;
          quantB = value mod 19
      in (fmul H (signPow H (fdiv H (real quantR - 9) 9) (lit H 2.0)) maximumValue,
          fmul H (signPow H (fdiv H (real quantG - 9) 9) (lit H 2.0)) maximumValue,
          fmul H (signPow H (fdiv H (real quantB - 9) 9) (lit H 2.0)) maximumValue))"

text \<open>\<^verbatim>\<open>punch = punch || 1\<close>: a falsy number is \<open>0\<close> or \<^verbatim>\<open>NaN\<close>.\<close>

definition punch_or_1 :: "number \<Rightarrow> real" where
  "punch_or_1 punch = (case punch of NaN \<Rightarrow> 1 | Num p \<Rightarrow> if p = 0 then 1 else p)"

text \<open>
  The first loop of \<^verbatim>\<open>decode\<close>, over the component indices: it stops at the first
  chunk that \<^verbatim>\<open>decode83\<close> rejects.
\<close>

fun decodeColors :: "host \<Rightarrow> string \<Rightarrow> real \<Rightarrow> real \<Rightarrow> nat list \<Rightarrow> error + color list" where
  "decodeColors H blurhash maximumValue punch [] = Inr []"
| "decodeColors H blurhash maximumValue punch (i # is) =
     (case (if i = 0
            then (case decode83 (substring blurhash 2 6) of
                    Inl e \<Rightarrow> Inl e
                  | Inr value \<Rightarrow> Inr (decodeDC H value))
            else (case decode83 (substring blurhash (4 + i * 2) (6 + i * 2)) of
                    Inl e \<Rightarrow> Inl e
                  | Inr value \<Rightarrow> Inr (decodeAC H value (fmul H maximumValue punch)))) of
        Inl e \<Rightarrow> Inl e
      | Inr c \<Rightarrow>
          (case decodeColors H blurhash maximumValue punch is of
             Inl e \<Rightarrow> Inl e
           | Inr cs \<Rightarrow> Inr (c # cs)))"

text \<open>
  \<^verbatim>\<open>decode\<close> up to the end of its first loop: validation, the grid size, the maximum
  value and the component colours.
\<close>

definition decodeComponents :: "host \<Rightarrow> string \<Rightarrow> number \<Rightarrow> error + (nat \<times> nat \<times> color list)" where
  "decodeComponents H blurhash punch0 =
     (case validateBlurhash blurhash of
        Inl e \<Rightarrow> Inl e
      | Inr _ \<Rightarrow>
          let punch = punch_or_1 punch0 in
          (case decode83 [blurhash ! 0] of
             Inl e \<Rightarrow> Inl e
           | Inr sizeFlag \<Rightarrow>
               let numY = numY_of sizeFlag; numX = numX_of sizeFlag in
               (case decode83 [blurhash ! 1] of
                  Inl e \<Rightarrow> Inl e
                | Inr quantisedMaximumValue \<Rightarrow>
                    let maximumValue = fdiv H (real (quantisedMaximumValue + 1)) 166 in
                    (case decodeColors H blurhash maximumValue punch [0..<numX * numY] of
                       Inl e \<Rightarrow> Inl e
                     | Inr colors \<Rightarrow> Inr (numX, numY, colors)))))"

text \<open>
  The two innermost \<^verbatim>\<open>for\<close> statements of \<^verbatim>\<open>decode\<close>: the linear colour of the pixel
  \<open>(x, y)\<close>, summed over the components.
\<close>

definition pixelColor :: "host \<Rightarrow> color list \<Rightarrow> nat \<Rightarrow> nat \<Rightarrow> nat \<Rightarrow> nat \<Rightarrow> nat \<Rightarrow> nat \<Rightarrow> color" where
  "pixelColor H colors numX numY width height x y =
     fold (\<lambda>j acc.
        let basisY = Math_cos H (fdiv H (fmul H (fmul H (Math_PI H) (real y)) (real j)) (real height))
        in fold (\<lambda>i (r, g, b).
             let basis = fmul H (Math_cos H
                           (fdiv H (fmul H (fmul H (Math_PI H) (real x)) (real i)) (real width))) basisY;
                 color = colors ! (i + j * numX)
             in (fadd H r (fmul H (fst color) basis),
                 fadd H g (fmul H (fst (snd color)) basis),
                 fadd H b (fmul H (snd (snd color)) basis)))
           [0..<numX] acc)
       [0..<numY] (0, 0, 0)"

text \<open>
  A store into a \<^verbatim>\<open>Uint8Array\<close> keeps the low eight bits of the integer; a store past
  the end is ignored, as \<open>list_update\<close> does.
\<close>

definition storePixel :: "host \<Rightarrow> color list \<Rightarrow> nat \<Rightarrow> nat \<Rightarrow> nat \<Rightarrow> nat \<Rightarrow> nat \<Rightarrow> nat \<Rightarrow> 8 word list \<Rightarrow> 8 word list" where
  "storePixel H colors numX numY width height y x pixels =
     (let bytesPerRow = width * 4;
          c = pixelColor H colors numX numY width height x y;
          intR = linearTosRGB H (fst c);
          intG = linearTosRGB H (fst (snd c));
          intB = linearTosRGB H (snd (snd c))
      in pixels[4 * x + 0 + y * bytesPerRow := word_of_int intR,
                4 * x + 1 + y * bytesPerRow := word_of_int intG,
                4 * x + 2 + y * bytesPerRow := word_of_int intB,
                4 * x + 3 + y * bytesPerRow := 255])"

definition renderPixels :: "host \<Rightarrow> color list \<Rightarrow> nat \<Rightarrow> nat \<Rightarrow> nat \<Rightarrow> nat \<Rightarrow> 8 word list" where
  "renderPixels H colors numX numY width height =
     (let bytesPerRow = width * 4;
          pixels = replicate (bytesPerRow * height) 0
      in fold (\<lambda>y. fold (storePixel H colors numX numY width height y) [0..<width])
           [0..<height] pixels)"

text \<open>
  \<^verbatim>\<open>decode\<close>. The width and the height are pixel counts; the allocation of the buffer
  is taken to succeed.
\<close>

definition decode :: "host \<Rightarrow> string \<Rightarrow> nat \<Rightarrow> nat \<Rightarrow> number \<Rightarrow> error + 8 word list" where
  "decode H blurhash width height punch =
     (case decodeComponents H blurhash punch of
        Inl e \<Rightarrow> Inl e
      | Inr (numX, numY, colors) \<Rightarrow> Inr (renderPixels H colors numX numY width height))"

text \<open>\<^verbatim>\<open>isBlurhashValid\<close>: the result flag and the optional reason.\<close>

definition isBlurhashValid :: "string \<Rightarrow> bool \<times> string option" where
  "isBlurhashValid blurhash =
     (case validateBlurhash blurhash of
        Inr _ \<Rightarrow> (True, None)
      | Inl (ValidationError m) \<Rightarrow> (False, Some m)
      | Inl (Error m) \<Rightarrow> (False, Some m))"

section \<open>The CSS approximation generator\<close>

record BlurhashCss =
  backgroundImage :: string
  backgroundPosition :: string
  backgroundRepeat :: string
  backgroundSize :: string
  filterCss :: string
  transform :: string

text \<open>
  \<^verbatim>\<open>BlurhashOptions\<close>: an optional field that is absent is \<open>None\<close>. The width and the
  height are whole numbers.
\<close>

record BlurhashOptions =
  width :: int
  height :: int
  blurRadius :: "real option"
  scaleFactor :: "real option"
  punch :: "number option"

text \<open>The message of a caught error.\<close>

fun message :: "error \<Rightarrow> string" where
  "message (ValidationError m) = m"
| "message (Error m) = m"

definition getRoundedPercentageOf :: "host \<Rightarrow> real \<Rightarrow> real \<Rightarrow> int" where
  "getRoundedPercentageOf H part whole =
     (if whole = 0 then 0
      else let v = fmul H (fdiv H part whole) 100 in Math_round v)"

definition getPixel :: "8 word list \<Rightarrow> nat \<Rightarrow> nat \<Rightarrow> nat \<Rightarrow> nat \<Rightarrow> error + 8 word" where
  "getPixel pixelBytes x y wd channelIndex =
     (let numberOfChannels = 4;
          bytesPerRow = wd * numberOfChannels;
          index = numberOfChannels * x + channelIndex + y * bytesPerRow
      in if index \<ge> length pixelBytes
         then Inl (Error (''Pixel index out of bounds: '' @ show_nat index))
         else Inr (pixelBytes ! index))"

definition getRgbColor :: "8 word list \<Rightarrow> nat \<Rightarrow> nat \<Rightarrow> nat \<Rightarrow> error + (8 word \<times> 8 word \<times> 8 word)" where
  "getRgbColor pixelBytes x y wd =
     (case getPixel pixelBytes x y wd 0 of
        Inl e \<Rightarrow> Inl e
      | Inr r \<Rightarrow>
          (case getPixel pixelBytes x y wd 1 of
             Inl e \<Rightarrow> Inl e
           | Inr g \<Rightarrow>
               (case getPixel pixelBytes x y wd 2 of
                  Inl e \<Rightarrow> Inl e
                | Inr b \<Rightarrow> Inr (r, g, b))))"

definition blurhashToBytes :: "host \<Rightarrow> string \<Rightarrow> nat \<Rightarrow> nat \<Rightarrow> number \<Rightarrow> error + 8 word list" where
  "blurhashToBytes H hash wd ht pn =
     (case decode H hash wd ht pn of
        Inl e \<Rightarrow> Inl (Error (''Failed to decode BlurHash: '' @ message e))
      | Inr pixels \<Rightarrow> Inr pixels)"

text \<open>
  A loop that pushes one result per index onto an array and stops at the first
  exception.
\<close>

fun collect :: "('a \<Rightarrow> error + 'b) \<Rightarrow> 'a list \<Rightarrow> error + 'b list" where
  "collect f [] = Inr []"
| "collect f (x # xs) =
     (case f x of
        Inl e \<Rightarrow> Inl e
      | Inr y \<Rightarrow> (case collect f xs of Inl e \<Rightarrow> Inl e | Inr ys \<Rightarrow> Inr (y # ys)))"

text \<open>The body of the inner loop of \<^verbatim>\<open>blurhashToCssStruct\<close>: the colour stop of one pixel.\<close>

definition rgbText :: "8 word \<times> 8 word \<times> 8 word \<Rightarrow> string" where
  "rgbText c = ''rgb('' @ show_nat (unat (fst c)) @ '','' @ show_nat (unat (fst (snd c))) @
     '','' @ show_nat (unat (snd (snd c))) @ '')''"

definition colorStop :: "host \<Rightarrow> 8 word list \<Rightarrow> nat \<Rightarrow> nat \<Rightarrow> nat \<Rightarrow> error + string" where
  "colorStop H pixelBytes wd y x =
     (case getRgbColor pixelBytes x y wd of
        Inl e \<Rightarrow> Inl e
      | Inr c \<Rightarrow>
          let startPercent =
                (if x = 0 then ''''
                 else '' '' @ show_int (getRoundedPercentageOf H (real x) (real wd)) @ ''%'');
              endPercent =
                (if int x = int wd - 1 then ''''
                 else '' '' @ show_int (getRoundedPercentageOf H (real (x + 1)) (real wd)) @ ''%'')
          in Inr (rgbText c @ startPercent @ endPercent))"

text \<open>The body of the outer loop: the gradient and the position of the row \<open>y\<close>.\<close>

definition rowGradient :: "host \<Rightarrow> 8 word list \<Rightarrow> nat \<Rightarrow> nat \<Rightarrow> error + string" where
  "rowGradient H pixelBytes wd y =
     (case collect (colorStop H pixelBytes wd y) [0..<wd] of
        Inl e \<Rightarrow> Inl e
      | Inr rowLinearGradients \<Rightarrow>
          Inr (''linear-gradient(90deg,'' @ join '','' rowLinearGradients @ '')''))"

definition rowPosition :: "host \<Rightarrow> nat \<Rightarrow> nat \<Rightarrow> string" where
  "rowPosition H ht y =
     (if y = 0 then ''0 0''
      else ''0 '' @ show_int (getRoundedPercentageOf H (real y) (real_of_int (int ht - 1))) @ ''%'')"

definition cssRow :: "host \<Rightarrow> 8 word list \<Rightarrow> nat \<Rightarrow> nat \<Rightarrow> nat \<Rightarrow> error + (string \<times> string)" where
  "cssRow H pixelBytes wd ht y =
     (case rowGradient H pixelBytes wd y of
        Inl e \<Rightarrow> Inl e
      | Inr rowGrad \<Rightarrow> Inr (rowGrad, rowPosition H ht y))"

definition blurhashToCssStruct :: "host \<Rightarrow> string \<Rightarrow> BlurhashOptions \<Rightarrow> error + BlurhashCss" where
  "blurhashToCssStruct H hash options =
     (let wd = width options; ht = height options;
          radius = (case blurRadius options of None \<Rightarrow> 24 | Some r \<Rightarrow> r);
          factor = (case scaleFactor options of None \<Rightarrow> lit H 1.2 | Some f \<Rightarrow> f);
          pn = (case punch options of None \<Rightarrow> Num 1.0 | Some p \<Rightarrow> p)
      in if hash = [] then Inl (Error ''Invalid BlurHash: must be a non-empty string'')
         else if wd \<le> 0 \<or> ht \<le> 0 then Inl (Error ''Width and height must be positive numbers'')
         else
           (case blurhashToBytes H hash (nat wd) (nat ht) pn of
              Inl e \<Rightarrow> Inl e
            | Inr pixelBytes \<Rightarrow>
                let bgSize = ''100% '' @ numberToString H (fdiv H 100.0 (real_of_int ht)) @ ''%'' in
                (case collect (cssRow H pixelBytes (nat wd) (nat ht)) [0..<nat ht] of
                   Inl e \<Rightarrow> Inl e
                 | Inr rows \<Rightarrow>
                     Inr \<lparr> backgroundImage = join '','' (map fst rows),
                           backgroundPosition = join '','' (map snd rows),
                           backgroundRepeat = ''no-repeat'',
                           backgroundSize = bgSize,
                           filterCss = ''blur('' @ numberToString H radius @ ''px)'',
                           transform = ''scale('' @ numberToString H factor @ '')'' \<rparr>)))"

definition blurhashToCssObject :: "host \<Rightarrow> string \<Rightarrow> BlurhashOptions \<Rightarrow> error + BlurhashCss" where
  "blurhashToCssObject H hash options = blurhashToCssStruct H hash options"

definition isValidBlurhash :: "string \<Rightarrow> bool" where
  "isValidBlurhash hash = fst (isBlurhashValid hash)"

section \<open>The element: placeholder style\<close>

text \<open>
  The key of a property in kebab case: a hyphen before every capital letter, then
  lower case.
\<close>

definition kebab :: "string \<Rightarrow> string" where
  "kebab key = concat (map (\<lambda>c. if (65::nat) \<le> of_char c \<and> of_char c \<le> (90::nat)
                                  then [CHR ''-'', char_of (of_char c + (32::nat))]
                                  else [c]) key)"

text \<open>\<^verbatim>\<open>Object.entries\<close> of the properties, in the order of their creation.\<close>

definition Object_entries :: "BlurhashCss \<Rightarrow> (string \<times> string) list" where
  "Object_entries css =
     [(''backgroundImage'', backgroundImage css),
      (''backgroundPosition'', backgroundPosition css),
      (''backgroundRepeat'', backgroundRepeat css),
      (''backgroundSize'', backgroundSize css),
      (''filter'', filterCss css),
      (''transform'', transform css)]"

definition cssText :: "BlurhashCss \<Rightarrow> string" where
  "cssText css =
     join (CHR 0x0A # replicate 20 CHR '' '')
       (map (\<lambda>(key, v). kebab key @ '': '' @ v @ '';'') (Object_entries css))"

definition invalidHashStyle :: string where
  "invalidHashStyle = ''background-color: #f0f0f0;''"

definition gradientStyle :: string where
  "gradientStyle =
     CHR 0x0A # replicate 16 CHR '' '' @
     ''background: linear-gradient(135deg, #e0e0e0 0%, #f0f0f0 50%, #e0e0e0 100%);'' @
     CHR 0x0A # replicate 16 CHR '' '' @
     ''background-size: 200% 200%;'' @
     CHR 0x0A # replicate 16 CHR '' '' @
     ''animation: gradient-shift 3s ease infinite;'' @
     CHR 0x0A # replicate 12 CHR '' ''"

text \<open>
  \<^verbatim>\<open>generateBlurhashCSS\<close>. Everything thrown inside its \<^verbatim>\<open>try\<close> block is caught, so the
  result is a string in every case. The aspect ratio is a number or \<^verbatim>\<open>NaN\<close>.
  \<^item> A ratio of zero makes the height infinite: a negative infinity fails the test on
    the sizes and a positive infinity fails the allocation of the buffer; both are
    thrown and caught.
  \<^item> With \<^verbatim>\<open>NaN\<close> the height is \<^verbatim>\<open>NaN\<close>: the tests on the sizes pass, the components are
    decoded, the buffer is empty and no row is produced.
\<close>

definition generateBlurhashCSS :: "host \<Rightarrow> string \<Rightarrow> number \<Rightarrow> string" where
  "generateBlurhashCSS H blurhash aspectRatio =
     (if \<not> isValidBlurhash blurhash then invalidHashStyle
      else
        let baseSize = 32; wd = baseSize in
        (case aspectRatio of
           NaN \<Rightarrow>
             (case decodeComponents H blurhash (Num (lit H 1.2)) of
                Inl e \<Rightarrow> gradientStyle
              | Inr _ \<Rightarrow>
                  cssText \<lparr> backgroundImage = '''', backgroundPosition = '''',
                            backgroundRepeat = ''no-repeat'', backgroundSize = ''100% NaN%'',
                            filterCss = ''blur('' @ numberToString H 16 @ ''px)'',
                            transform = ''scale('' @ numberToString H (lit H 1.1) @ '')'' \<rparr>)
         | Num ratio \<Rightarrow>
             if ratio = 0 then gradientStyle
             else
               let ht = Math_round (fdiv H (real_of_int baseSize) ratio) in
               (case blurhashToCssObject H blurhash
                       \<lparr> width = wd, height = ht, blurRadius = Some 16,
                         scaleFactor = Some (lit H 1.1), punch = Some (Num (lit H 1.2)) \<rparr> of
                  Inl e \<Rightarrow> gradientStyle
                | Inr cssProperties \<Rightarrow> cssText cssProperties)))"

section \<open>The element: lifecycle\<close>

text \<open>
  The element \<^verbatim>\<open>AxBlurest\<close> is driven by the callbacks of its host: the custom-element
  reactions, the visibility observer, the timers and the handlers of an image being
  fetched. Its state is the fields of the class together with the part of the host
  that these callbacks read and write: the attributes, the layers of the shadow tree,
  the observers that are connected, the timers that are armed, the images being
  fetched, the events dispatched and the clock.

  A layer is a node of a store, since \<^verbatim>\<open>loadImage\<close> captures the layers it found and
  a later \<^verbatim>\<open>render\<close> replaces them. The style sheet and the backdrop layer carry no
  state and are not represented; attribute values are taken to be free of characters
  that the markup of \<^verbatim>\<open>render\<close> would not pass through unchanged.
\<close>

record node =
  classList :: "string set"
  srcAttr :: string
  dataSrc :: "string option"

text \<open>
  An image being fetched, with what its two handlers captured. The field \<open>startedAt\<close>
  is a history variable: the value of \<^verbatim>\<open>Date.now()\<close> that \<^verbatim>\<open>loadImage\<close> stored in
  \<^verbatim>\<open>loadStartTime\<close> when it started this fetch. No callback reads it.
\<close>

record request =
  requestSrc :: string
  capturedImageLayer :: nat
  capturedBlurhashLayer :: "nat option"
  startedAt :: int
  settled :: bool

record custom_event =
  eventType :: string
  detailSrc :: string
  bubbles :: bool
  composed :: bool

record element =
  observer :: "nat option"
  isInViewport :: bool
  loadingTimer :: "nat option"
  loadStartTime :: "int option"
  isImageLoaded :: bool
  isImageError :: bool
  attributes :: "string \<Rightarrow> string option"
  blurhashLayer :: "nat option"
  imageLayer :: "nat option"
  errorLayer :: "nat option"
  nodes :: "nat \<Rightarrow> node"
  nextNode :: nat
  liveObservers :: "nat list"
  nextObserver :: nat
  pendingTimers :: "nat list"
  nextTimer :: nat
  requests :: "request list"
  dispatched :: "custom_event list"
  clock :: int

definition newNode :: "string \<Rightarrow> string option \<Rightarrow> node" where
  "newNode cls ds = \<lparr> classList = {cls}, srcAttr = '''', dataSrc = ds \<rparr>"

definition newElement :: "int \<Rightarrow> element" where
  "newElement t =
     \<lparr> observer = None, isInViewport = False, loadingTimer = None, loadStartTime = None,
       isImageLoaded = False, isImageError = False,
       attributes = (\<lambda>name. None),
       blurhashLayer = None, imageLayer = None, errorLayer = None,
       nodes = (\<lambda>n. \<lparr> classList = {}, srcAttr = '''', dataSrc = None \<rparr>), nextNode = 0,
       liveObservers = [], nextObserver = 0,
       pendingTimers = [], nextTimer = 0,
       requests = [], dispatched = [], clock = t \<rparr>"

text \<open>A string attribute is truthy when it is present and not empty.\<close>

definition truthy :: "string option \<Rightarrow> bool" where
  "truthy a = (case a of None \<Rightarrow> False | Some s \<Rightarrow> s \<noteq> [])"

definition debugMode :: "element \<Rightarrow> bool" where
  "debugMode w = (attributes w ''debug'' \<noteq> None)"

definition addClass :: "nat \<Rightarrow> string \<Rightarrow> element \<Rightarrow> element" where
  "addClass n cls w =
     w\<lparr> nodes := (nodes w)(n := (nodes w n)\<lparr> classList := insert cls (classList (nodes w n)) \<rparr>) \<rparr>"

definition removeClass :: "nat \<Rightarrow> string \<Rightarrow> element \<Rightarrow> element" where
  "removeClass n cls w =
     w\<lparr> nodes := (nodes w)(n := (nodes w n)\<lparr> classList := classList (nodes w n) - {cls} \<rparr>) \<rparr>"

definition addDebugIndicator :: "element \<Rightarrow> element" where
  "addDebugIndicator w =
     (case blurhashLayer w of None \<Rightarrow> w | Some b \<Rightarrow> addClass b ''debug-loading'' w)"

definition removeDebugIndicator :: "element \<Rightarrow> element" where
  "removeDebugIndicator w =
     (case blurhashLayer w of None \<Rightarrow> w | Some b \<Rightarrow> removeClass b ''debug-loading'' w)"

definition cleanupObserver :: "element \<Rightarrow> element" where
  "cleanupObserver w =
     (case observer w of
        None \<Rightarrow> w
      | Some ob \<Rightarrow> w\<lparr> liveObservers := removeAll ob (liveObservers w), observer := None \<rparr>)"

text \<open>A timer handle is a positive integer; the handle \<open>0\<close> would be falsy.\<close>

definition cleanupTimer :: "element \<Rightarrow> element" where
  "cleanupTimer w =
     (case loadingTimer w of
        None \<Rightarrow> w
      | Some t \<Rightarrow>
          if t = 0 then w
          else w\<lparr> pendingTimers := removeAll t (pendingTimers w), loadingTimer := None \<rparr>)"

text \<open>
  \<^verbatim>\<open>render\<close> replaces the content of the shadow root. Without the complete placeholder
  data the content is the image layer alone, and only when there is a source.
\<close>

definition render :: "element \<Rightarrow> element" where
  "render w =
     (let src = attributes w ''src'';
          srcWidth = attributes w ''src-width'';
          srcHeight = attributes w ''src-height'';
          blurhash = attributes w ''blurhash'';
          hasCompleteData = (truthy srcWidth \<and> truthy srcHeight \<and> truthy blurhash);
          n = nextNode w
      in if \<not> hasCompleteData
         then (if truthy src
               then w\<lparr> blurhashLayer := None, errorLayer := None, imageLayer := Some n,
                       nodes := (nodes w)(n := newNode ''image-layer'' src),
                       nextNode := n + 1 \<rparr>
               else w\<lparr> blurhashLayer := None, errorLayer := None, imageLayer := None \<rparr>)
         else (if truthy src
               then w\<lparr> blurhashLayer := Some n, imageLayer := Some (n + 1),
                       errorLayer := Some (n + 2),
                       nodes := (nodes w)(n := newNode ''blurhash-layer'' None,
                                          n + 1 := newNode ''image-layer'' src,
                                          n + 2 := newNode ''error-layer'' None),
                       nextNode := n + 3 \<rparr>
               else w\<lparr> blurhashLayer := Some n, imageLayer := None,
                       errorLayer := Some (n + 2),
                       nodes := (nodes w)(n := newNode ''blurhash-layer'' None,
                                          n + 2 := newNode ''error-layer'' None),
                       nextNode := n + 3 \<rparr>))"

definition setupIntersectionObserver :: "element \<Rightarrow> element" where
  "setupIntersectionObserver w =
     (let w1 = cleanupObserver w; ob = nextObserver w1
      in w1\<lparr> observer := Some ob, liveObservers := ob # liveObservers w1,
             nextObserver := Suc ob \<rparr>)"

text \<open>
  \<^verbatim>\<open>loadImage\<close> up to the assignment that starts the fetch; the two handlers it installs
  are \<open>onload\<close> and \<open>onerror\<close> below, applied to the request it records.
\<close>

definition loadImage :: "element \<Rightarrow> element" where
  "loadImage w =
     (case imageLayer w of
        None \<Rightarrow> w
      | Some il \<Rightarrow>
          let src = dataSrc (nodes w il) in
          if \<not> truthy src \<or> isImageLoaded w \<or> isImageError w then w
          else w\<lparr> loadStartTime := Some (clock w),
                  requests := requests w @
                    [\<lparr> requestSrc = (case src of None \<Rightarrow> [] | Some s \<Rightarrow> s),
                       capturedImageLayer = il,
                       capturedBlurhashLayer = blurhashLayer w,
                       startedAt = clock w,
                       settled = False \<rparr>] \<rparr>)"

definition dispatchEvent :: "string \<Rightarrow> string \<Rightarrow> element \<Rightarrow> element" where
  "dispatchEvent name src w =
     w\<lparr> dispatched := dispatched w @
          [\<lparr> eventType = name, detailSrc = src, bubbles = True, composed = True \<rparr>] \<rparr>"

text \<open>
  The duration that \<open>onload\<close> computes: the start time is falsy when it is \<^verbatim>\<open>null\<close> or
  \<open>0\<close>.
\<close>

definition loadDuration :: "element \<Rightarrow> int" where
  "loadDuration w =
     (case loadStartTime w of
        None \<Rightarrow> 999
      | Some t \<Rightarrow> if t = 0 then 999 else clock w - t)"

definition onload :: "request \<Rightarrow> element \<Rightarrow> element" where
  "onload r w =
     (let il = capturedImageLayer r;
          w1 = (if loadDuration w < 200 \<and> capturedBlurhashLayer r \<noteq> None
                then addClass il ''no-animation'' w else w);
          w2 = w1\<lparr> nodes := (nodes w1)(il := (nodes w1 il)\<lparr> srcAttr := requestSrc r \<rparr>) \<rparr>;
          w3 = addClass il ''loaded'' w2;
          w4 = (case capturedBlurhashLayer r of
                  None \<Rightarrow> w3
                | Some b \<Rightarrow> addClass b ''fade-out'' w3);
          w5 = w4\<lparr> isImageLoaded := True \<rparr>
      in dispatchEvent ''image-loaded'' (requestSrc r) w5)"

definition onerror :: "request \<Rightarrow> element \<Rightarrow> element" where
  "onerror r w =
     (let w1 = w\<lparr> isImageError := True \<rparr>;
          w2 = (case errorLayer w1 of
                  None \<Rightarrow> w1
                | Some e \<Rightarrow> addClass e ''visible'' w1);
          w3 = (case capturedBlurhashLayer r of
                  None \<Rightarrow> w2
                | Some b \<Rightarrow> addClass b ''fade-out'' w2)
      in dispatchEvent ''image-error'' (requestSrc r) w3)"

text \<open>The callback of the timer that \<^verbatim>\<open>handleViewportEntry\<close> arms.\<close>

definition timerCallback :: "element \<Rightarrow> element" where
  "timerCallback w = removeDebugIndicator (loadImage w)"

text \<open>
  \<^verbatim>\<open>handleViewportEntry\<close>. The delay of the timer is not represented: an armed timer
  may fire at any later moment.
\<close>

definition handleViewportEntry :: "element \<Rightarrow> element" where
  "handleViewportEntry w =
     (if isImageLoaded w \<or> isImageError w then w
      else if debugMode w
      then (let w1 = addDebugIndicator w; t = Suc (nextTimer w1)
            in w1\<lparr> loadingTimer := Some t, pendingTimers := t # pendingTimers w1,
                   nextTimer := t \<rparr>)
      else loadImage w)"

definition handleViewportExit :: "element \<Rightarrow> element" where
  "handleViewportExit w =
     (case loadingTimer w of
        None \<Rightarrow> w
      | Some t \<Rightarrow>
          if t \<noteq> 0 \<and> \<not> isImageLoaded w
          then removeDebugIndicator
                 (w\<lparr> pendingTimers := removeAll t (pendingTimers w), loadingTimer := None \<rparr>)
          else w)"

text \<open>The callback of the visibility observer, one entry after the other.\<close>

definition intersectionEntry :: "bool \<Rightarrow> element \<Rightarrow> element" where
  "intersectionEntry isIntersecting w =
     (if isIntersecting \<and> \<not> isInViewport w
      then handleViewportEntry (w\<lparr> isInViewport := True \<rparr>)
      else if \<not> isIntersecting \<and> isInViewport w
      then handleViewportExit (w\<lparr> isInViewport := False \<rparr>)
      else w)"

definition observerCallback :: "bool list \<Rightarrow> element \<Rightarrow> element" where
  "observerCallback entries w = fold intersectionEntry entries w"

definition connectedCallback :: "element \<Rightarrow> element" where
  "connectedCallback w = setupIntersectionObserver (render w)"

definition disconnectedCallback :: "element \<Rightarrow> element" where
  "disconnectedCallback w = cleanupTimer (cleanupObserver w)"

definition observedAttributes :: "string list" where
  "observedAttributes =
     [''src'', ''src-width'', ''src-height'', ''blurhash'', ''render-width'', ''alt'',
      ''debug'', ''debug-delay'']"

definition attributeChangedCallback ::
    "string \<Rightarrow> string option \<Rightarrow> string option \<Rightarrow> element \<Rightarrow> element" where
  "attributeChangedCallback property oldValue newValue w =
     (if oldValue \<noteq> newValue
      then (let w1 = w\<lparr> isImageLoaded := False, isImageError := False, loadStartTime := None \<rparr>
            in if property = ''debug'' \<or> property = ''debug-delay''
               then render w1
               else setupIntersectionObserver (render w1))
      else w)"

text \<open>
  What the host can do to the element. An attribute is set or removed, and the
  reaction runs when the attribute is observed; an observer that is connected
  delivers entries; an armed timer fires; an image being fetched loads or fails, once;
  the clock moves.
\<close>

datatype input =
    Connected
  | Disconnected
  | AttributeChanged string "string option"
  | Intersection nat "bool list"
  | TimerFired nat
  | ImageLoaded nat
  | ImageFailed nat
  | Tick int

definition settle :: "nat \<Rightarrow> element \<Rightarrow> element" where
  "settle k w = w\<lparr> requests := (requests w)[k := (requests w ! k)\<lparr> settled := True \<rparr>] \<rparr>"

fun step :: "input \<Rightarrow> element \<Rightarrow> element" where
  "step Connected w = connectedCallback w"
| "step Disconnected w = disconnectedCallback w"
| "step (AttributeChanged name v) w =
     (let oldValue = attributes w name;
          w1 = w\<lparr> attributes := (attributes w)(name := v) \<rparr>
      in if name \<in> set observedAttributes
         then attributeChangedCallback name oldValue v w1 else w1)"
| "step (Intersection ob entries) w =
     (if ob \<in> set (liveObservers w) then observerCallback entries w else w)"
| "step (TimerFired t) w =
     (if t \<in> set (pendingTimers w)
      then timerCallback (w\<lparr> pendingTimers := removeAll t (pendingTimers w) \<rparr>) else w)"
| "step (ImageLoaded k) w =
     (if k < length (requests w) \<and> \<not> settled (requests w ! k)
      then onload (requests w ! k) (settle k w) else w)"
| "step (ImageFailed k) w =
     (if k < length (requests w) \<and> \<not> settled (requests w ! k)
      then onerror (requests w ! k) (settle k w) else w)"
| "step (Tick t) w = w\<lparr> clock := t \<rparr>"

definition run :: "input list \<Rightarrow> element \<Rightarrow> element" where
  "run inputs w = fold step inputs w"

text \<open>
  The states in which no fetch has started yet: no image is being fetched, neither
  flag is set, no event has been dispatched, and the only timer that can be armed is
  the one whose handle the element holds, while the element is in the viewport.
\<close>

definition idle :: "element \<Rightarrow> bool" where
  "idle w \<longleftrightarrow>
     requests w = [] \<and> \<not> isImageLoaded w \<and> \<not> isImageError w \<and> dispatched w = [] \<and>
     loadingTimer w \<noteq> Some 0 \<and> (\<not> isInViewport w \<longrightarrow> pendingTimers w = []) \<and>
     set (pendingTimers w) \<subseteq> (case loadingTimer w of None \<Rightarrow> {} | Some t \<Rightarrow> {t})"

text \<open>An input that does not report the element as intersecting.\<close>

fun quiet :: "input \<Rightarrow> bool" where
  "quiet (Intersection ob entries) = (True \<notin> set entries)"
| "quiet i = True"

text \<open>Observer handles are allocated in increasing order.\<close>

definition observers_fresh :: "element \<Rightarrow> bool" where
  "observers_fresh w \<longleftrightarrow>
     (\<forall>ob \<in> set (liveObservers w). ob < nextObserver w) \<and>
     (\<forall>ob. observer w = Some ob \<longrightarrow> ob < nextObserver w)"

text \<open>
  What holds of the layers and of the images being fetched in every state that a new
  element reaches. Layers are allocated in increasing order. An image that was started
  on the image layer the element has now was started after the last \<^verbatim>\<open>render\<close>: its
  placeholder layer is the one the element has now, its source is the attribute
  \<^verbatim>\<open>src\<close>, and the start time the element holds is the start of such an image. A layer
  has the class \<^verbatim>\<open>no-animation\<close> only after an image started on it has loaded.
\<close>

definition tracked :: "element \<Rightarrow> bool" where
  "tracked w \<longleftrightarrow>
     (\<forall>n. imageLayer w = Some n \<longrightarrow>
        n < nextNode w \<and> dataSrc (nodes w n) = attributes w ''src'') \<and>
     (\<forall>j<length (requests w). capturedImageLayer (requests w ! j) < nextNode w) \<and>
     (\<forall>j<length (requests w).
        imageLayer w = Some (capturedImageLayer (requests w ! j)) \<longrightarrow>
          capturedBlurhashLayer (requests w ! j) = blurhashLayer w \<and>
          attributes w ''src'' = Some (requestSrc (requests w ! j)) \<and>
          (\<exists>i<length (requests w).
             capturedImageLayer (requests w ! i) = capturedImageLayer (requests w ! j) \<and>
             loadStartTime w = Some (startedAt (requests w ! i)))) \<and>
     (\<forall>n. ''no-animation'' \<in> classList (nodes w n) \<longrightarrow>
        (\<exists>j<length (requests w).
           capturedImageLayer (requests w ! j) = n \<and> settled (requests w ! j)))"

section \<open>Validation\<close>

lemma is_prefix_append: "is_prefix t (t @ b)"
  by (induction t) auto

lemma mentions_append: "mentions (a @ t @ b) t"
proof (induction a)
  case Nil
  then show ?case by (cases "t @ b") (auto simp: is_prefix_append, metis is_prefix_append)
next
  case (Cons c a)
  then show ?case by simp
qed

lemma length_mismatch_mentions:
  "mentions (length_mismatch a e) (show_nat a) \<and> mentions (length_mismatch a e) (show_nat e)"
proof -
  have "mentions (''blurhash length mismatch: length is '' @ show_nat a @
          ('' but it should be '' @ show_nat e)) (show_nat a)"
    by (rule mentions_append)
  moreover have "mentions ((''blurhash length mismatch: length is '' @ show_nat a @
          '' but it should be '') @ show_nat e @ []) (show_nat e)"
    by (rule mentions_append)
  ultimately show ?thesis by (simp add: length_mismatch_def)
qed

lemma decode_validation_error:
  "validateBlurhash s = Inl e \<Longrightarrow> decode H s w h p = Inl e"
  by (simp add: decode_def decodeComponents_def)

text \<open>
  C1 (as the code has it). Validation succeeds only on a string of at least six
  characters whose first character is a base83 symbol and whose length is
  \<open>4 + 2 * numX * numY\<close>. A string of at least six characters whose first character is a
  base83 symbol and whose length differs from \<open>4 + 2 * numX * numY\<close> is rejected with a
  \<^verbatim>\<open>ValidationError\<close> whose message prints the actual and the expected length; a
  shorter string is rejected with the message of the minimum length. Whatever
  validation rejects, \<^verbatim>\<open>decode\<close> rejects with the same error, and returns no raster.
\<close>

theorem validateBlurhash_length_check:
  "(validateBlurhash s = Inr () \<longrightarrow>
      6 \<le> length s \<and>
      (\<exists>sizeFlag. decode83 [s ! 0] = Inr sizeFlag \<and>
         length s = 4 + 2 * numX_of sizeFlag * numY_of sizeFlag)) \<and>
   (6 \<le> length s \<and> decode83 [s ! 0] = Inr sizeFlag \<and>
      length s \<noteq> 4 + 2 * numX_of sizeFlag * numY_of sizeFlag \<longrightarrow>
      (\<exists>msg. validateBlurhash s = Inl (ValidationError msg) \<and>
         msg = length_mismatch (length s) (4 + 2 * numX_of sizeFlag * numY_of sizeFlag) \<and>
         mentions msg (show_nat (length s)) \<and>
         mentions msg (show_nat (4 + 2 * numX_of sizeFlag * numY_of sizeFlag)))) \<and>
   (validateBlurhash s = Inl e \<longrightarrow> decode H s w h p = Inl e) \<and>
   (length s < 6 \<longrightarrow>
      validateBlurhash s =
        Inl (ValidationError ''The blurhash string must be at least 6 characters''))"
proof (intro conjI impI)
  assume ok: "validateBlurhash s = Inr ()"
  then show "6 \<le> length s"
    by (auto simp: validateBlurhash_def split: if_splits)
  from ok show "\<exists>sizeFlag. decode83 [s ! 0] = Inr sizeFlag \<and>
         length s = 4 + 2 * numX_of sizeFlag * numY_of sizeFlag"
    by (auto simp: validateBlurhash_def Let_def split: if_splits sum.splits)
next
  assume "6 \<le> length s \<and> decode83 [s ! 0] = Inr sizeFlag \<and>
      length s \<noteq> 4 + 2 * numX_of sizeFlag * numY_of sizeFlag"
  then have "validateBlurhash s = Inl (ValidationError
       (length_mismatch (length s) (4 + 2 * numX_of sizeFlag * numY_of sizeFlag)))"
    by (auto simp: validateBlurhash_def Let_def)
  then show "\<exists>msg. validateBlurhash s = Inl (ValidationError msg) \<and>
         msg = length_mismatch (length s) (4 + 2 * numX_of sizeFlag * numY_of sizeFlag) \<and>
         mentions msg (show_nat (length s)) \<and>
         mentions msg (show_nat (4 + 2 * numX_of sizeFlag * numY_of sizeFlag))"
    using length_mismatch_mentions by simp
next
  assume "validateBlurhash s = Inl e"
  then show "decode H s w h p = Inl e" by (rule decode_validation_error)
next
  assume "length s < 6"
  then show "validateBlurhash s =
        Inl (ValidationError ''The blurhash string must be at least 6 characters'')"
    by (simp add: validateBlurhash_def)
qed

text \<open>
  The cases at concrete strings: \<^verbatim>\<open>000000\<close> is accepted, the seven characters
  \<^verbatim>\<open>0000000\<close> are rejected by validation and by \<^verbatim>\<open>decode\<close> with the mismatch message,
  and the four characters \<^verbatim>\<open>0000\<close> are rejected as too short.
\<close>

theorem validateBlurhash_length_check_witness:
  "validateBlurhash ''000000'' = Inr () \<and>
   6 \<le> length ''0000000'' \<and> decode83 [''0000000'' ! 0] = Inr 0 \<and>
   length ''0000000'' \<noteq> 4 + 2 * numX_of 0 * numY_of 0 \<and>
   validateBlurhash ''0000000'' =
     Inl (ValidationError ''blurhash length mismatch: length is 7 but it should be 6'') \<and>
   decode exact_host ''0000000'' 2 2 (Num 1) =
     Inl (ValidationError ''blurhash length mismatch: length is 7 but it should be 6'') \<and>
   length ''000000'' = 4 + 2 * numX_of 0 * numY_of 0 \<and>
   length ''0000'' < 6 \<and>
   validateBlurhash ''0000'' =
     Inl (ValidationError ''The blurhash string must be at least 6 characters'')"
proof -
  have v: "validateBlurhash ''000000'' = Inr ()" by code_simp
  have h: "6 \<le> length ''0000000'' \<and> decode83 [''0000000'' ! 0] = Inr 0 \<and>
      length ''0000000'' \<noteq> 4 + 2 * numX_of 0 * numY_of 0" by code_simp
  have m: "length_mismatch (length ''0000000'') (4 + 2 * numX_of 0 * numY_of 0) =
      ''blurhash length mismatch: length is 7 but it should be 6''" by code_simp
  have d: "decode83 [''000000'' ! 0] = Inr 0" by code_simp
  from validateBlurhash_length_check [of "''000000''" 0 undefined exact_host 2 2 "Num 1"] v d
  have a: "length ''000000'' = 4 + 2 * numX_of 0 * numY_of 0" by simp
  from validateBlurhash_length_check [of "''0000000''" 0
      "ValidationError ''blurhash length mismatch: length is 7 but it should be 6''"
      exact_host 2 2 "Num 1"] h m
  have b: "validateBlurhash ''0000000'' =
     Inl (ValidationError ''blurhash length mismatch: length is 7 but it should be 6'') \<and>
   decode exact_host ''0000000'' 2 2 (Num 1) =
     Inl (ValidationError ''blurhash length mismatch: length is 7 but it should be 6'')"
    by simp
  from validateBlurhash_length_check [of "''0000''" 0 undefined exact_host 2 2 "Num 1"]
  have c: "validateBlurhash ''0000'' =
     Inl (ValidationError ''The blurhash string must be at least 6 characters'')"
    by simp
  from v h a b c show ?thesis by simp
qed

text \<open>
  C1 as stated fails on a short string: the five characters \<^verbatim>\<open>10000\<close> give
  \<open>numX = 2\<close>, \<open>numY = 1\<close> and the expected length 8, so the length equation is violated,
  but the guard on the minimum length answers first, and its message prints neither
  the actual length 5 nor the expected length 8.
\<close>

theorem validateBlurhash_short_counterexample:
  "length ''10000'' < 6 \<and> decode83 [''10000'' ! 0] = Inr 1 \<and>
   length ''10000'' \<noteq> 4 + 2 * numX_of 1 * numY_of 1 \<and>
   validateBlurhash ''10000'' =
     Inl (ValidationError ''The blurhash string must be at least 6 characters'') \<and>
   \<not> mentions ''The blurhash string must be at least 6 characters''
        (show_nat (length ''10000'')) \<and>
   \<not> mentions ''The blurhash string must be at least 6 characters''
        (show_nat (4 + 2 * numX_of 1 * numY_of 1))"
  by code_simp

lemma decode_bad_symbol:
  "decode H ''00000!'' wd ht pn = Inl (ValidationError ''Invalid base83 character: !'')"
proof -
  have v: "validateBlurhash ''00000!'' = Inr ()" by code_simp
  show ?thesis
    by (simp add: decode_def decodeComponents_def v decode83_def BASE83_CHARS_def
        substring_def numX_of_def numY_of_def)
qed

lemma decodeComponents_bad_symbol:
  "decodeComponents H ''00000!'' pn = Inl (ValidationError ''Invalid base83 character: !'')"
proof -
  have v: "validateBlurhash ''00000!'' = Inr ()" by code_simp
  show ?thesis
    by (simp add: decodeComponents_def v decode83_def BASE83_CHARS_def
        substring_def numX_of_def numY_of_def)
qed

section \<open>Properties of the decoder\<close>

lemma indexOf_None_iff: "indexOf xs c = None \<longleftrightarrow> c \<notin> set xs"
  by (induction xs) auto

lemma decode83_loop_ok:
  "set cs \<subseteq> set BASE83_CHARS \<Longrightarrow> \<exists>n. decode83_loop v cs = Inr n"
proof (induction cs arbitrary: v)
  case Nil
  then show ?case by simp
next
  case (Cons c cs)
  then obtain d where "indexOf BASE83_CHARS c = Some d"
    using indexOf_None_iff [of BASE83_CHARS c] by (cases "indexOf BASE83_CHARS c") auto
  with Cons show ?case by simp
qed

lemma decode83_ok: "set str \<subseteq> set BASE83_CHARS \<Longrightarrow> \<exists>n. decode83 str = Inr n"
  by (simp add: decode83_def decode83_loop_ok)

lemma set_substring: "set (substring s a b) \<subseteq> set s"
  unfolding substring_def by (meson set_take_subset set_drop_subset subset_trans)

lemma decodeColors_ok:
  "set b \<subseteq> set BASE83_CHARS \<Longrightarrow>
   \<exists>cs. decodeColors H b m p is = Inr cs \<and> length cs = length is"
proof (induction "is")
  case Nil
  then show ?case by simp
next
  case (Cons i "is")
  then obtain cs where cs: "decodeColors H b m p is = Inr cs" "length cs = length is"
    by auto
  from Cons.prems obtain v1 where v1: "decode83 (substring b 2 6) = Inr v1"
    using decode83_ok set_substring by (meson subset_trans)
  from Cons.prems obtain v2 where v2: "decode83 (substring b (4 + i * 2) (6 + i * 2)) = Inr v2"
    using decode83_ok set_substring by (meson subset_trans)
  show ?case by (simp add: cs v1 v2)
qed

lemma decodeComponents_ok:
  assumes "validateBlurhash b = Inr ()" and "set b \<subseteq> set BASE83_CHARS"
  shows "\<exists>numX numY colors. decodeComponents H b p = Inr (numX, numY, colors) \<and>
           length colors = numX * numY"
proof -
  from assms(1) have len: "6 \<le> length b"
    by (auto simp: validateBlurhash_def split: if_splits)
  then have "b ! 0 \<in> set b" "b ! 1 \<in> set b" by (auto intro: nth_mem)
  then have "set [b ! 0] \<subseteq> set b" "set [b ! 1] \<subseteq> set b" by auto
  with assms(2) obtain sf q where sf: "decode83 [b ! 0] = Inr sf" and q: "decode83 [b ! 1] = Inr q"
    using decode83_ok by (meson subset_trans)
  define M where "M = fdiv H (real (q + 1)) 166"
  define L where "L = [0..<numX_of sf * numY_of sf]"
  have eq: "decodeComponents H b p =
      (case decodeColors H b M (punch_or_1 p) L of
         Inl e \<Rightarrow> Inl e
       | Inr colors \<Rightarrow> Inr (numX_of sf, numY_of sf, colors))"
    unfolding decodeComponents_def assms(1) sf q Let_def M_def L_def by simp
  obtain cs where "decodeColors H b M (punch_or_1 p) L = Inr cs" "length cs = length L"
    using decodeColors_ok [OF assms(2)] by blast
  then show ?thesis
    by (simp add: eq L_def)
qed

lemma decode_ok:
  assumes "validateBlurhash b = Inr ()" and "set b \<subseteq> set BASE83_CHARS"
  shows "\<exists>pixels. decode H b wd ht pn = Inr pixels"
proof -
  obtain numX numY colors where "decodeComponents H b pn = Inr (numX, numY, colors)"
    using decodeComponents_ok [OF assms] by blast
  then show ?thesis by (simp add: decode_def)
qed

lemma length_storePixel [simp]:
  "length (storePixel H colors numX numY wd ht y x pixels) = length pixels"
  by (simp add: storePixel_def Let_def)

lemma length_fold_storePixel [simp]:
  "length (fold (storePixel H colors numX numY wd ht y) xs pixels) = length pixels"
  by (induction xs arbitrary: pixels) auto

lemma length_fold_rows [simp]:
  "length (fold (\<lambda>y. fold (storePixel H colors numX numY wd ht y) (f y)) ys pixels)
     = length pixels"
  by (induction ys arbitrary: pixels) auto

lemma length_renderPixels:
  "length (renderPixels H colors numX numY wd ht) = wd * ht * 4"
  by (simp add: renderPixels_def Let_def mult_ac)

lemma index_mod_4: "(4 * x + c + y * (wd * 4)) mod 4 = c mod (4::nat)"
proof -
  have "4 * x + c + y * (wd * 4) = c + 4 * (x + y * wd)" by (simp add: algebra_simps)
  then show ?thesis by (simp only: mod_mult_self2)
qed

lemma storePixel_alpha:
  assumes "i mod 4 = 3" and "i < length pixels"
    and "pixels ! i = 255 \<or> i = 4 * x + 3 + y * (wd * 4)"
  shows "storePixel H colors numX numY wd ht y x pixels ! i = 255"
proof -
  have "i \<noteq> 4 * x + 0 + y * (wd * 4)" "i \<noteq> 4 * x + 1 + y * (wd * 4)"
    "i \<noteq> 4 * x + 2 + y * (wd * 4)"
    using assms(1) index_mod_4 [of x 0 y wd] index_mod_4 [of x 1 y wd]
      index_mod_4 [of x 2 y wd] by auto
  note ne = this
  show ?thesis
  proof (cases "i = 4 * x + 3 + y * (wd * 4)")
    case True
    then show ?thesis
      using assms(2) by (simp add: storePixel_def Let_def)
  next
    case False
    with assms(3) have "pixels ! i = 255" by simp
    with False ne show ?thesis
      by (simp add: storePixel_def Let_def)
  qed
qed

lemma fold_storePixel_alpha:
  assumes "i mod 4 = 3" and "i < length pixels"
    and "pixels ! i = 255 \<or> (\<exists>x \<in> set xs. i = 4 * x + 3 + y * (wd * 4))"
  shows "fold (storePixel H colors numX numY wd ht y) xs pixels ! i = 255"
  using assms
proof (induction xs arbitrary: pixels)
  case Nil
  then show ?case by simp
next
  case (Cons x xs)
  let ?p = "storePixel H colors numX numY wd ht y x pixels"
  have "?p ! i = 255 \<or> (\<exists>x \<in> set xs. i = 4 * x + 3 + y * (wd * 4))"
    using Cons.prems storePixel_alpha [of i pixels x y wd] by auto
  then show ?case
    using Cons.IH [of ?p] Cons.prems by simp
qed

lemma fold_rows_alpha:
  assumes "i mod 4 = 3" and "i < length pixels"
    and "pixels ! i = 255 \<or> (\<exists>y \<in> set ys. \<exists>x \<in> set xs. i = 4 * x + 3 + y * (wd * 4))"
  shows "fold (\<lambda>y. fold (storePixel H colors numX numY wd ht y) xs) ys pixels ! i = 255"
  using assms
proof (induction ys arbitrary: pixels)
  case Nil
  then show ?case by simp
next
  case (Cons y ys)
  let ?p = "fold (storePixel H colors numX numY wd ht y) xs pixels"
  have "?p ! i = 255 \<or> (\<exists>y \<in> set ys. \<exists>x \<in> set xs. i = 4 * x + 3 + y * (wd * 4))"
    using Cons.prems fold_storePixel_alpha [of i pixels xs y wd] by auto
  then show ?case
    using Cons.IH [of ?p] Cons.prems by simp
qed

lemma alpha_index_bound:
  assumes "x < (wd::nat)" and "y < (ht::nat)"
  shows "4 * x + 3 + y * (wd * 4) < wd * 4 * ht"
proof -
  have "4 * x + 3 + y * (wd * 4) < (y + 1) * (wd * 4)" using assms(1) by simp
  also have "\<dots> \<le> ht * (wd * 4)" using assms(2) by (intro mult_le_mono1) simp
  finally show ?thesis by (simp add: mult_ac)
qed

lemma renderPixels_alpha_xy:
  assumes "x < wd" and "y < ht"
  shows "renderPixels H colors numX numY wd ht ! (4 * x + 3 + y * wd * 4) = 255"
proof -
  let ?i = "4 * x + 3 + y * (wd * 4)"
  have m: "?i mod 4 = 3" using index_mod_4 [of x 3 y wd] by simp
  have b: "?i < length (replicate (wd * 4 * ht) (0 :: 8 word))"
    using alpha_index_bound [OF assms] by simp
  have "fold (\<lambda>y. fold (storePixel H colors numX numY wd ht y) [0..<wd]) [0..<ht]
          (replicate (wd * 4 * ht) 0) ! ?i = 255"
  proof (rule fold_rows_alpha [OF m b], rule disjI2)
    show "\<exists>y' \<in> set [0..<ht]. \<exists>x' \<in> set [0..<wd].
            ?i = 4 * x' + 3 + y' * (wd * 4)"
      using assms by (intro bexI [of _ y] bexI [of _ x]) auto
  qed
  then show ?thesis by (simp add: renderPixels_def Let_def mult.assoc)
qed

lemma renderPixels_alpha:
  assumes "i < length (renderPixels H colors numX numY wd ht)" and "i mod 4 = 3"
  shows "renderPixels H colors numX numY wd ht ! i = 255"
proof -
  from assms(1) have lt: "i < wd * ht * 4" by (simp add: length_renderPixels)
  then have w: "0 < wd" by (cases wd) auto
  define k where "k = i div 4"
  have i: "i = 4 * k + 3" using assms(2) unfolding k_def by presburger
  have k: "k < wd * ht" using lt unfolding k_def by (simp add: less_mult_imp_div_less)
  have x: "k mod wd < wd" using w by simp
  have y: "k div wd < ht" using k by (simp add: less_mult_imp_div_less mult.commute)
  have "k = k mod wd + wd * (k div wd)" by simp
  then have "4 * k = 4 * (k mod wd) + 4 * (wd * (k div wd))"
    by (metis distrib_left)
  then have "4 * (k mod wd) + 3 + (k div wd) * wd * 4 = i"
    unfolding i by (simp add: mult_ac)
  with renderPixels_alpha_xy [OF x y, of H colors numX numY] show ?thesis by simp
qed


text \<open>
  C2. Whenever \<^verbatim>\<open>decode\<close> returns a buffer, for any width, height and punch, the
  buffer has \<open>width * height * 4\<close> bytes and the byte at the index
  \<open>4 * x + 3 + y * width * 4\<close> of every pixel, which is every fourth byte, is 255. And
  \<^verbatim>\<open>decode\<close> does return a buffer for every placeholder string, a sequence of base83
  symbols, that passes validation.
\<close>

theorem decode_raster_alpha:
  "(decode H blurhash wd ht pn = Inr pixels \<longrightarrow>
      length pixels = wd * ht * 4 \<and>
      (\<forall>x<wd. \<forall>y<ht. pixels ! (4 * x + 3 + y * wd * 4) = 255) \<and>
      (\<forall>i<length pixels. i mod 4 = 3 \<longrightarrow> pixels ! i = 255)) \<and>
   (validateBlurhash blurhash = Inr () \<and> set blurhash \<subseteq> set BASE83_CHARS \<longrightarrow>
      (\<exists>raster. decode H blurhash wd ht pn = Inr raster))"
proof -
  have "length pixels = wd * ht * 4 \<and>
      (\<forall>x<wd. \<forall>y<ht. pixels ! (4 * x + 3 + y * wd * 4) = 255) \<and>
      (\<forall>i<length pixels. i mod 4 = 3 \<longrightarrow> pixels ! i = 255)"
    if "decode H blurhash wd ht pn = Inr pixels"
  proof -
    from that obtain numX numY colors where "pixels = renderPixels H colors numX numY wd ht"
      by (auto simp: decode_def split: sum.splits)
    then show ?thesis
      using length_renderPixels renderPixels_alpha_xy renderPixels_alpha by auto
  qed
  moreover have "\<exists>raster. decode H blurhash wd ht pn = Inr raster"
    if "validateBlurhash blurhash = Inr () \<and> set blurhash \<subseteq> set BASE83_CHARS"
    using that decode_ok by blast
  ultimately show ?thesis by blast
qed

text \<open>
  The scenario of C2: the hash \<^verbatim>\<open>LGF5?]00~q%M-;%M%M9Fxu-;tRof\<close> at 2 by 2 decodes to 16
  bytes, of which the 4th, 8th, 12th and 16th are 255.
\<close>

theorem decode_raster_alpha_witness:
  "validateBlurhash ''LGF5?]00~q%M-;%M%M9Fxu-;tRof'' = Inr () \<and>
   set ''LGF5?]00~q%M-;%M%M9Fxu-;tRof'' \<subseteq> set BASE83_CHARS \<and>
   (\<exists>pixels. decode exact_host ''LGF5?]00~q%M-;%M%M9Fxu-;tRof'' 2 2 (Num 1) = Inr pixels \<and>
      length pixels = 16 \<and> pixels ! 3 = 255 \<and> pixels ! 7 = 255 \<and>
      pixels ! 11 = 255 \<and> pixels ! 15 = 255)"
proof -
  have v: "validateBlurhash ''LGF5?]00~q%M-;%M%M9Fxu-;tRof'' = Inr ()" by code_simp
  have a: "set ''LGF5?]00~q%M-;%M%M9Fxu-;tRof'' \<subseteq> set BASE83_CHARS" by code_simp
  obtain pixels where
    d: "decode exact_host ''LGF5?]00~q%M-;%M%M9Fxu-;tRof'' 2 2 (Num 1) = Inr pixels"
    using decode_raster_alpha [of exact_host "''LGF5?]00~q%M-;%M%M9Fxu-;tRof''" 2 2 "Num 1"] v a
    by blast
  from decode_raster_alpha [of exact_host "''LGF5?]00~q%M-;%M%M9Fxu-;tRof''" 2 2 "Num 1" pixels] d
  have p: "length pixels = 2 * 2 * 4" "\<forall>i<length pixels. i mod 4 = 3 \<longrightarrow> pixels ! i = 255"
    by blast+
  then have "pixels ! 3 = 255" "pixels ! 7 = 255" "pixels ! 11 = 255" "pixels ! 15 = 255"
    by simp_all
  with v a d p(1) show ?thesis by simp
qed

text \<open>
  C9. Decoding with the punch 0, and with the punch \<^verbatim>\<open>NaN\<close>, is decoding with the
  punch 1, for every string and every width and height; and for every placeholder
  string that passes validation the three calls return one and the same raster.
\<close>

theorem decode_punch_falsy:
  "decode H blurhash wd ht (Num 0) = decode H blurhash wd ht (Num 1) \<and>
   decode H blurhash wd ht NaN = decode H blurhash wd ht (Num 1) \<and>
   (validateBlurhash blurhash = Inr () \<and> set blurhash \<subseteq> set BASE83_CHARS \<longrightarrow>
      (\<exists>pixels. decode H blurhash wd ht (Num 1) = Inr pixels \<and>
         decode H blurhash wd ht (Num 0) = Inr pixels \<and>
         decode H blurhash wd ht NaN = Inr pixels))"
proof -
  have "punch_or_1 (Num 0) = punch_or_1 (Num 1)" "punch_or_1 NaN = punch_or_1 (Num 1)"
    by (simp_all add: punch_or_1_def)
  then have e: "decode H blurhash wd ht (Num 0) = decode H blurhash wd ht (Num 1)"
    "decode H blurhash wd ht NaN = decode H blurhash wd ht (Num 1)"
    by (simp_all add: decode_def decodeComponents_def cong: sum.case_cong)
  have "\<exists>pixels. decode H blurhash wd ht (Num 1) = Inr pixels"
    if "validateBlurhash blurhash = Inr () \<and> set blurhash \<subseteq> set BASE83_CHARS"
    using that decode_ok by blast
  with e show ?thesis by auto
qed

text \<open>The scenario hash at 2 by 2 under the three punches.\<close>

theorem decode_punch_falsy_witness:
  "validateBlurhash ''LGF5?]00~q%M-;%M%M9Fxu-;tRof'' = Inr () \<and>
   set ''LGF5?]00~q%M-;%M%M9Fxu-;tRof'' \<subseteq> set BASE83_CHARS \<and>
   (\<exists>pixels. decode exact_host ''LGF5?]00~q%M-;%M%M9Fxu-;tRof'' 2 2 (Num 1) = Inr pixels \<and>
      decode exact_host ''LGF5?]00~q%M-;%M%M9Fxu-;tRof'' 2 2 (Num 0) = Inr pixels \<and>
      decode exact_host ''LGF5?]00~q%M-;%M%M9Fxu-;tRof'' 2 2 NaN = Inr pixels)"
proof -
  have v: "validateBlurhash ''LGF5?]00~q%M-;%M%M9Fxu-;tRof'' = Inr ()" by code_simp
  have a: "set ''LGF5?]00~q%M-;%M%M9Fxu-;tRof'' \<subseteq> set BASE83_CHARS" by code_simp
  from decode_punch_falsy [of exact_host "''LGF5?]00~q%M-;%M%M9Fxu-;tRof''" 2 2] v a
  show ?thesis by blast
qed

lemma scaled_magnitude_mono:
  assumes "mono (r :: real \<Rightarrow> real)" and "r 0 = 0" and "0 \<le> X1" and "X1 \<le> Xp"
  shows "\<bar>r (A * X1)\<bar> \<le> \<bar>r (A * Xp)\<bar>"
proof (cases "0 \<le> A")
  case True
  then have "0 \<le> A * X1" using assms(3) by (rule mult_nonneg_nonneg)
  moreover have "A * X1 \<le> A * Xp" using True assms(4) by (rule mult_left_mono [rotated])
  ultimately have "0 \<le> A * X1" "A * X1 \<le> A * Xp" by simp_all
  then have "r 0 \<le> r (A * X1)" "r (A * X1) \<le> r (A * Xp)"
    using assms(1) by (auto dest: monoD)
  then show ?thesis using assms(2) by simp
next
  case False
  then have "A * X1 \<le> 0" using assms(3) by (intro mult_nonpos_nonneg) auto
  moreover have "A * Xp \<le> A * X1" using False assms(4) by (intro mult_left_mono_neg) auto
  ultimately have "A * X1 \<le> 0" "A * Xp \<le> A * X1" by simp_all
  then have "r (A * X1) \<le> r 0" "r (A * Xp) \<le> r (A * X1)"
    using assms(1) by (auto dest: monoD)
  then show ?thesis using assms(2) by simp
qed

lemma punch_factor_mono:
  assumes "mono (rnd H)" and "rnd H 0 = 0" and "0 \<le> M" and "1 < p"
  shows "0 \<le> fmul H M 1 \<and> fmul H M 1 \<le> fmul H M p"
proof -
  have "0 \<le> M * 1" using assms(3) by simp
  moreover have "M * 1 \<le> M * p" using assms(3,4) by (intro mult_left_mono) auto
  ultimately have "0 \<le> M * 1" "M * 1 \<le> M * p" by simp_all
  then have "rnd H 0 \<le> rnd H (M * 1)" "rnd H (M * 1) \<le> rnd H (M * p)"
    using assms(1) by (auto dest: monoD)
  then show ?thesis using assms(2) by (simp add: fmul_def)
qed

lemma decodeAC_punch_mono:
  assumes "mono (rnd H)" and "rnd H 0 = 0" and "0 \<le> M" and "1 < p"
  shows "\<bar>fst (decodeAC H v (fmul H M 1))\<bar> \<le> \<bar>fst (decodeAC H v (fmul H M p))\<bar> \<and>
         \<bar>fst (snd (decodeAC H v (fmul H M 1)))\<bar> \<le> \<bar>fst (snd (decodeAC H v (fmul H M p)))\<bar> \<and>
         \<bar>snd (snd (decodeAC H v (fmul H M 1)))\<bar> \<le> \<bar>snd (snd (decodeAC H v (fmul H M p)))\<bar>"
  using punch_factor_mono [OF assms]
  by (simp add: decodeAC_def Let_def fmul_def [of H "signPow H a b" for a b]
      scaled_magnitude_mono [OF assms(1,2)])

lemma maximumValue_nonneg:
  assumes "mono (rnd H)" and "rnd H 0 = 0"
  shows "0 \<le> fdiv H (real (q + 1)) 166"
proof -
  have "rnd H 0 \<le> rnd H (real (q + 1) / 166)" by (rule monoD [OF assms(1)]) simp
  then show ?thesis unfolding fdiv_def assms(2) .
qed

lemma decodeColors_AC:
  assumes "decodeColors H b m p is = Inr cs" and "k < length is" and "is ! k \<noteq> 0"
  shows "\<exists>v. decode83 (substring b (4 + is ! k * 2) (6 + is ! k * 2)) = Inr v \<and>
             cs ! k = decodeAC H v (fmul H m p)"
  using assms
proof (induction "is" arbitrary: cs k)
  case Nil
  then show ?case by simp
next
  case (Cons i "is")
  let ?first = "if i = 0
            then (case decode83 (substring b 2 6) of
                    Inl e \<Rightarrow> Inl e
                  | Inr value \<Rightarrow> Inr (decodeDC H value))
            else (case decode83 (substring b (4 + i * 2) (6 + i * 2)) of
                    Inl e \<Rightarrow> Inl e
                  | Inr value \<Rightarrow> Inr (decodeAC H value (fmul H m p)))"
  from Cons.prems(1) obtain c cs' where cs: "cs = c # cs'"
    and rest: "decodeColors H b m p is = Inr cs'" and first: "?first = Inr c"
    by (cases ?first; cases "decodeColors H b m p is") (auto split del: if_split)
  from first have c: "i \<noteq> 0 \<longrightarrow> (\<exists>v. decode83 (substring b (4 + i * 2) (6 + i * 2)) = Inr v \<and>
      c = decodeAC H v (fmul H m p))"
    by (auto split: sum.splits if_splits)
  show ?case
  proof (cases k)
    case 0
    with Cons.prems(3) c cs show ?thesis by simp
  next
    case (Suc k')
    with Cons.prems Cons.IH [OF rest, of k'] cs show ?thesis by simp
  qed
qed


lemma decodeComponents_Inr:
  assumes "decodeComponents H b p = Inr (nx, ny, cs)"
  shows "\<exists>sf q. nx = numX_of sf \<and> ny = numY_of sf \<and>
           decodeColors H b (fdiv H (real (q + 1)) 166) (punch_or_1 p) [0..<nx * ny] = Inr cs \<and>
           decode83 [b ! 1] = Inr q \<and> decode83 [b ! 0] = Inr sf"
  using assms unfolding decodeComponents_def Let_def
  by (auto split: sum.splits simp del: of_nat_add of_nat_Suc One_nat_def)

lemma decodeColors_length:
  "decodeColors H b m p is = Inr cs \<Longrightarrow> length cs = length is"
proof (induction "is" arbitrary: cs)
  case Nil
  then show ?case by simp
next
  case (Cons i "is")
  then show ?case by (auto split: sum.splits simp del: if_split)
qed

lemma AC_magnitudes:
  assumes "mono (rnd H)" and "rnd H 0 = 0" and "1 < p"
    and c1: "decodeComponents H blurhash (Num 1) = Inr (nx, ny, cs1)"
    and cp: "decodeComponents H blurhash (Num p) = Inr (nx', ny', csp)"
  shows "nx' = nx \<and> ny' = ny \<and> length cs1 = nx * ny \<and> length csp = nx * ny \<and>
         (\<forall>i. 0 < i \<and> i < nx * ny \<longrightarrow>
            (\<exists>value maximumValue.
               cs1 ! i = decodeAC H value (fmul H maximumValue 1) \<and>
               csp ! i = decodeAC H value (fmul H maximumValue p)) \<and>
            \<bar>fst (cs1 ! i)\<bar> \<le> \<bar>fst (csp ! i)\<bar> \<and>
            \<bar>fst (snd (cs1 ! i))\<bar> \<le> \<bar>fst (snd (csp ! i))\<bar> \<and>
            \<bar>snd (snd (cs1 ! i))\<bar> \<le> \<bar>snd (snd (csp ! i))\<bar>)"
proof -
  from decodeComponents_Inr [OF c1] obtain sf q where
    n1: "nx = numX_of sf" "ny = numY_of sf" and q1: "decode83 [blurhash ! 1] = Inr q" and
    s1: "decode83 [blurhash ! 0] = Inr sf" and
    d1: "decodeColors H blurhash (fdiv H (real (q + 1)) 166) (punch_or_1 (Num 1))
           [0..<nx * ny] = Inr cs1"
    by blast
  from decodeComponents_Inr [OF cp] obtain sf' q' where
    np: "nx' = numX_of sf'" "ny' = numY_of sf'" and qp: "decode83 [blurhash ! 1] = Inr q'" and
    sp: "decode83 [blurhash ! 0] = Inr sf'" and
    dp: "decodeColors H blurhash (fdiv H (real (q' + 1)) 166) (punch_or_1 (Num p))
           [0..<nx' * ny'] = Inr csp"
    by blast
  from q1 qp s1 sp have same: "q' = q" "sf' = sf" by simp_all
  with n1 np have nn: "nx' = nx" "ny' = ny" by simp_all
  have l1: "length cs1 = nx * ny" using decodeColors_length [OF d1] by simp
  have lp: "length csp = nx * ny" using decodeColors_length [OF dp] nn by simp
  define M where "M = fdiv H (real (q + 1)) 166"
  have M: "0 \<le> M" unfolding M_def by (rule maximumValue_nonneg [OF assms(1,2)])
  have p1: "punch_or_1 (Num 1) = 1" and pp: "punch_or_1 (Num p) = p"
    using assms(3) by (simp_all add: punch_or_1_def)
  have each: "(\<exists>value maximumValue.
                 cs1 ! i = decodeAC H value (fmul H maximumValue 1) \<and>
                 csp ! i = decodeAC H value (fmul H maximumValue p)) \<and>
              \<bar>fst (cs1 ! i)\<bar> \<le> \<bar>fst (csp ! i)\<bar> \<and>
              \<bar>fst (snd (cs1 ! i))\<bar> \<le> \<bar>fst (snd (csp ! i))\<bar> \<and>
              \<bar>snd (snd (cs1 ! i))\<bar> \<le> \<bar>snd (snd (csp ! i))\<bar>"
    if i: "0 < i" "i < nx * ny" for i
  proof -
    have k: "i < length [0..<nx * ny]" "[0..<nx * ny] ! i \<noteq> 0" using i by simp_all
    from decodeColors_AC [OF d1 k] obtain v where
      v: "decode83 (substring blurhash (4 + i * 2) (6 + i * 2)) = Inr v"
      and a1: "cs1 ! i = decodeAC H v (fmul H M 1)"
      using i by (auto simp: M_def p1)
    from decodeColors_AC [OF dp [unfolded nn same] k] obtain v' where
      v': "decode83 (substring blurhash (4 + i * 2) (6 + i * 2)) = Inr v'"
      and ap: "csp ! i = decodeAC H v' (fmul H M p)"
      using i by (auto simp: M_def pp)
    from v v' have "v' = v" by simp
    with a1 ap decodeAC_punch_mono [OF assms(1,2) M assms(3), of v] show ?thesis
      by auto
  qed
  from nn l1 lp each show ?thesis by blast
qed

text \<open>
  C6. The rounding of the host is monotone and rounds 0 to 0. Then for every punch
  \<open>p > 1\<close> and every hash whose components decode, the grid is the same under the
  punch \<open>p\<close> and under the punch 1, and for every index \<open>i > 0\<close> the component is
  \<^verbatim>\<open>decodeAC(value, maximumValue * p)\<close> under \<open>p\<close> and
  \<^verbatim>\<open>decodeAC(value, maximumValue * 1)\<close> under 1, and the magnitude of each of its three
  channels under \<open>p\<close> is at least its magnitude under 1. The components of every
  placeholder string that passes validation do decode, under both punches.
\<close>

theorem punch_scales_AC_magnitude:
  assumes "mono (rnd H)" and "rnd H 0 = 0" and "1 < p"
  shows "(decodeComponents H blurhash (Num 1) = Inr (nx, ny, cs1) \<and>
          decodeComponents H blurhash (Num p) = Inr (nx', ny', csp) \<longrightarrow>
            nx' = nx \<and> ny' = ny \<and> length cs1 = nx * ny \<and> length csp = nx * ny \<and>
            (\<forall>i. 0 < i \<and> i < nx * ny \<longrightarrow>
               (\<exists>value maximumValue.
                  cs1 ! i = decodeAC H value (fmul H maximumValue 1) \<and>
                  csp ! i = decodeAC H value (fmul H maximumValue p)) \<and>
               \<bar>fst (cs1 ! i)\<bar> \<le> \<bar>fst (csp ! i)\<bar> \<and>
               \<bar>fst (snd (cs1 ! i))\<bar> \<le> \<bar>fst (snd (csp ! i))\<bar> \<and>
               \<bar>snd (snd (cs1 ! i))\<bar> \<le> \<bar>snd (snd (csp ! i))\<bar>)) \<and>
         (validateBlurhash blurhash = Inr () \<and> set blurhash \<subseteq> set BASE83_CHARS \<longrightarrow>
            (\<exists>numX numY a b. decodeComponents H blurhash (Num 1) = Inr (numX, numY, a) \<and>
               decodeComponents H blurhash (Num p) = Inr (numX, numY, b)))"
proof -
  have second: "\<exists>numX numY a b. decodeComponents H blurhash (Num 1) = Inr (numX, numY, a) \<and>
               decodeComponents H blurhash (Num p) = Inr (numX, numY, b)"
    if v: "validateBlurhash blurhash = Inr () \<and> set blurhash \<subseteq> set BASE83_CHARS"
  proof -
    from v obtain n1 m1 a where a: "decodeComponents H blurhash (Num 1) = Inr (n1, m1, a)"
      using decodeComponents_ok by blast
    from v obtain n2 m2 b where b: "decodeComponents H blurhash (Num p) = Inr (n2, m2, b)"
      using decodeComponents_ok by blast
    from AC_magnitudes [OF assms a b] have "n2 = n1" "m2 = m1" by simp_all
    with a b show ?thesis by blast
  qed
  from AC_magnitudes [OF assms] second show ?thesis by blast
qed

text \<open>
  The scenario hash under the punches 1 and 2, with the exact host: the first detail
  component.
\<close>

theorem punch_scales_AC_magnitude_witness:
  "mono (rnd exact_host) \<and> rnd exact_host 0 = 0 \<and> (1::real) < 2 \<and>
   validateBlurhash ''LGF5?]00~q%M-;%M%M9Fxu-;tRof'' = Inr () \<and>
   set ''LGF5?]00~q%M-;%M%M9Fxu-;tRof'' \<subseteq> set BASE83_CHARS \<and>
   (\<exists>numX numY cs1 csp.
      decodeComponents exact_host ''LGF5?]00~q%M-;%M%M9Fxu-;tRof'' (Num 1) = Inr (numX, numY, cs1) \<and>
      decodeComponents exact_host ''LGF5?]00~q%M-;%M%M9Fxu-;tRof'' (Num 2) = Inr (numX, numY, csp) \<and>
      length cs1 = numX * numY \<and> length csp = numX * numY \<and> numX * numY = 12 \<and>
      \<bar>fst (cs1 ! 1)\<bar> \<le> \<bar>fst (csp ! 1)\<bar> \<and>
      \<bar>fst (snd (cs1 ! 1))\<bar> \<le> \<bar>fst (snd (csp ! 1))\<bar> \<and>
      \<bar>snd (snd (cs1 ! 1))\<bar> \<le> \<bar>snd (snd (csp ! 1))\<bar>)"
proof -
  have m: "mono (rnd exact_host)" by (simp add: exact_host_def mono_def)
  have z: "rnd exact_host 0 = 0" by (simp add: exact_host_def)
  have p: "(1::real) < 2" by simp
  have v: "validateBlurhash ''LGF5?]00~q%M-;%M%M9Fxu-;tRof'' = Inr ()" by code_simp
  have a: "set ''LGF5?]00~q%M-;%M%M9Fxu-;tRof'' \<subseteq> set BASE83_CHARS" by code_simp
  note t = punch_scales_AC_magnitude [OF m z p, of "''LGF5?]00~q%M-;%M%M9Fxu-;tRof''"]
  from t v a obtain numX numY cs1 csp where c:
    "decodeComponents exact_host ''LGF5?]00~q%M-;%M%M9Fxu-;tRof'' (Num 1) = Inr (numX, numY, cs1)"
    "decodeComponents exact_host ''LGF5?]00~q%M-;%M%M9Fxu-;tRof'' (Num 2) = Inr (numX, numY, csp)"
    by blast
  from t [of numX numY cs1 numX numY csp] c have r:
    "length cs1 = numX * numY" "length csp = numX * numY"
    "\<forall>i. 0 < i \<and> i < numX * numY \<longrightarrow>
              (\<exists>value maximumValue.
                 cs1 ! i = decodeAC exact_host value (fmul exact_host maximumValue 1) \<and>
                 csp ! i = decodeAC exact_host value (fmul exact_host maximumValue 2)) \<and>
              \<bar>fst (cs1 ! i)\<bar> \<le> \<bar>fst (csp ! i)\<bar> \<and>
              \<bar>fst (snd (cs1 ! i))\<bar> \<le> \<bar>fst (snd (csp ! i))\<bar> \<and>
              \<bar>snd (snd (cs1 ! i))\<bar> \<le> \<bar>snd (snd (csp ! i))\<bar>"
    by blast+
  have s: "decode83 [''LGF5?]00~q%M-;%M%M9Fxu-;tRof'' ! 0] = Inr 21" by code_simp
  from decodeComponents_Inr [OF c(1)] s have "numX = numX_of 21" "numY = numY_of 21" by auto
  then have n: "numX * numY = 12" by (simp add: numX_of_def numY_of_def)
  with r(3) have "\<bar>fst (cs1 ! 1)\<bar> \<le> \<bar>fst (csp ! 1)\<bar> \<and>
      \<bar>fst (snd (cs1 ! 1))\<bar> \<le> \<bar>fst (snd (csp ! 1))\<bar> \<and>
      \<bar>snd (snd (cs1 ! 1))\<bar> \<le> \<bar>snd (snd (csp ! 1))\<bar>" by simp
  with m z v a c r(1,2) n show ?thesis by auto
qed

text \<open>A symbol outside the alphabet, anywhere after the first character, makes the decoder fail.\<close>

lemma decode83_loop_bad:
  assumes "c \<in> set cs" and "c \<notin> set BASE83_CHARS"
  shows "\<exists>e. decode83_loop v cs = Inl e"
  using assms
proof (induction cs arbitrary: v)
  case Nil
  then show ?case by simp
next
  case (Cons d ds)
  show ?case
  proof (cases "indexOf BASE83_CHARS d")
    case None
    then show ?thesis by simp
  next
    case (Some digit)
    then have "d \<in> set BASE83_CHARS" using indexOf_None_iff [of BASE83_CHARS d] by auto
    with Cons.prems have "c \<in> set ds" by auto
    from Cons.IH [OF this Cons.prems(2)] Some show ?thesis by simp
  qed
qed

lemma decode83_bad:
  assumes "c \<in> set str" and "c \<notin> set BASE83_CHARS"
  shows "\<exists>e. decode83 str = Inl e"
  using decode83_loop_bad [OF assms] by (simp add: decode83_def)

lemma nth_in_substring:
  assumes "a \<le> i" and "i < b" and "b \<le> length s"
  shows "s ! i \<in> set (substring s a b)"
proof -
  have "i - a < length (take (b - a) (drop a s))" using assms by simp
  then have "take (b - a) (drop a s) ! (i - a) \<in> set (take (b - a) (drop a s))"
    by (rule nth_mem)
  moreover have "take (b - a) (drop a s) ! (i - a) = s ! i" using assms by simp
  ultimately show ?thesis by (simp add: substring_def)
qed

lemma decodeColors_bad:
  assumes "k \<in> set is" and "k \<noteq> 0"
    and "decode83 (substring b (4 + k * 2) (6 + k * 2)) = Inl e"
  shows "\<exists>e'. decodeColors H b m p is = Inl e'"
  using assms(1)
proof (induction "is")
  case Nil
  then show ?case by simp
next
  case (Cons i "is")
  show ?case
  proof (cases "i = k")
    case True
    with assms(2,3) show ?thesis by simp
  next
    case False
    with Cons have "\<exists>e'. decodeColors H b m p is = Inl e'" by simp
    then show ?thesis by (auto split: sum.splits simp del: if_split)
  qed
qed

lemma decodeColors_bad_first:
  assumes "decode83 (substring b 2 6) = Inl e"
  shows "\<exists>e'. decodeColors H b m p (0 # is) = Inl e'"
  using assms by simp

lemma decodeComponents_bad:
  assumes v: "validateBlurhash s = Inr ()" and i: "0 < i" "i < length s"
    and bad: "s ! i \<notin> set BASE83_CHARS"
  shows "\<exists>e. decodeComponents H s pn = Inl e"
proof -
  from v obtain sf where sf: "decode83 [s ! 0] = Inr sf"
    and len: "length s = 4 + 2 * numX_of sf * numY_of sf"
    by (auto simp: validateBlurhash_def Let_def split: if_splits sum.splits)
  define N where "N = numX_of sf * numY_of sf"
  have n: "0 < N" by (simp add: N_def numX_of_def numY_of_def)
  have len': "length s = 4 + 2 * N" using len by (simp add: N_def mult.assoc)
  show ?thesis
  proof (cases "decode83 [s ! 1]")
    case (Inl e)
    then show ?thesis unfolding decodeComponents_def v sf Let_def by simp
  next
    case (Inr q)
    have i1: "i \<noteq> 1"
    proof
      assume "i = 1"
      with bad have "\<exists>e. decode83 [s ! 1] = Inl e" by (intro decode83_bad [of "s ! 1"]) simp_all
      with Inr show False by simp
    qed
    define M where "M = fdiv H (real (q + 1)) 166"
    have eq: "decodeComponents H s pn =
        (case decodeColors H s M (punch_or_1 pn) [0..<N] of
           Inl e \<Rightarrow> Inl e
         | Inr colors \<Rightarrow> Inr (numX_of sf, numY_of sf, colors))"
      unfolding decodeComponents_def v sf Inr Let_def M_def N_def by simp
    have "\<exists>e. decodeColors H s M (punch_or_1 pn) [0..<N] = Inl e"
    proof (cases "i < 6")
      case True
      have "6 \<le> length s" using len' n by simp
      with True i i1 have "s ! i \<in> set (substring s 2 6)"
        by (intro nth_in_substring) simp_all
      from decode83_bad [OF this bad] obtain e where "decode83 (substring s 2 6) = Inl e" ..
      moreover have "[0..<N] = 0 # [1..<N]" using n by (simp add: upt_conv_Cons)
      ultimately show ?thesis using decodeColors_bad_first by metis
    next
      case False
      define k where "k = (i - 4) div 2"
      have k: "k \<noteq> 0" "k < N" "4 + k * 2 \<le> i" "i < 6 + k * 2" "6 + k * 2 \<le> length s"
        using False i(2) len' unfolding k_def by presburger+
      from k(3-5) have "s ! i \<in> set (substring s (4 + k * 2) (6 + k * 2))"
        by (rule nth_in_substring)
      from decode83_bad [OF this bad] obtain e where
        "decode83 (substring s (4 + k * 2) (6 + k * 2)) = Inl e" ..
      moreover have "k \<in> set [0..<N]" using k(2) by simp
      ultimately show ?thesis using decodeColors_bad k(1) by metis
    qed
    then show ?thesis by (auto simp: eq)
  qed
qed

lemma validateBlurhash_ignores_rest:
  assumes "6 \<le> length s" and "decode83 [s ! 0] = Inr sf"
    and "length s = 4 + 2 * numX_of sf * numY_of sf"
  shows "isBlurhashValid s = (True, None)"
  using assms by (auto simp: isBlurhashValid_def validateBlurhash_def Let_def)

text \<open>
  C10. There is a string that \<^verbatim>\<open>isBlurhashValid\<close> accepts and that \<^verbatim>\<open>decode\<close> rejects,
  whatever the size and the punch: \<^verbatim>\<open>00000!\<close> has the right length for a 1 by 1 grid,
  and its last character is not a base83 symbol. In general the validity check accepts
  every string of at least six characters whose first character is a base83 symbol
  and whose length fits it, and \<^verbatim>\<open>decode\<close> rejects every accepted string that has a
  character outside the alphabet at a later position.
\<close>

theorem valid_hash_decode_throws:
  "(\<exists>t. isBlurhashValid t = (True, None) \<and>
       (\<forall>H' w h p. decode H' t w h p =
          Inl (ValidationError ''Invalid base83 character: !''))) \<and>
   (6 \<le> length s \<and> decode83 [s ! 0] = Inr sf \<and>
      length s = 4 + 2 * numX_of sf * numY_of sf \<longrightarrow> isBlurhashValid s = (True, None)) \<and>
   (isBlurhashValid s = (True, None) \<and> 0 < i \<and> i < length s \<and>
      s ! i \<notin> set BASE83_CHARS \<longrightarrow> (\<exists>e. decode H s wd ht pn = Inl e))"
proof -
  have "isBlurhashValid ''00000!'' = (True, None)" by code_simp
  then have a: "\<exists>t. isBlurhashValid t = (True, None) \<and>
       (\<forall>H' w h p. decode H' t w h p =
          Inl (ValidationError ''Invalid base83 character: !''))"
    using decode_bad_symbol by blast
  have b: "isBlurhashValid s = (True, None)"
    if "6 \<le> length s \<and> decode83 [s ! 0] = Inr sf \<and>
      length s = 4 + 2 * numX_of sf * numY_of sf"
    using that validateBlurhash_ignores_rest by blast
  have c: "\<exists>e. decode H s wd ht pn = Inl e"
    if h: "isBlurhashValid s = (True, None) \<and> 0 < i \<and> i < length s \<and>
      s ! i \<notin> set BASE83_CHARS"
  proof -
    from h have "validateBlurhash s = Inr ()"
      by (cases "validateBlurhash s") (auto simp: isBlurhashValid_def split: error.splits)
    from decodeComponents_bad [OF this, of i H pn] h
    obtain e where "decodeComponents H s pn = Inl e" by blast
    then show ?thesis by (simp add: decode_def)
  qed
  from a b c show ?thesis by blast
qed

text \<open>The string \<^verbatim>\<open>00000!\<close> and its sixth character.\<close>

theorem valid_hash_decode_throws_witness:
  "6 \<le> length ''00000!'' \<and> decode83 [''00000!'' ! 0] = Inr 0 \<and>
   length ''00000!'' = 4 + 2 * numX_of 0 * numY_of 0 \<and>
   isBlurhashValid ''00000!'' = (True, None) \<and>
   ''00000!'' ! 5 \<notin> set BASE83_CHARS \<and>
   (\<exists>e. decode exact_host ''00000!'' 2 2 (Num 1) = Inl e)"
proof -
  have h: "6 \<le> length ''00000!'' \<and> decode83 [''00000!'' ! 0] = Inr 0 \<and>
      length ''00000!'' = 4 + 2 * numX_of 0 * numY_of 0" by code_simp
  have n: "''00000!'' ! 5 \<notin> set BASE83_CHARS" by code_simp
  have i: "(0::nat) < 5 \<and> 5 < length ''00000!''" by simp
  from valid_hash_decode_throws [of "''00000!''" 0 5 exact_host 2 2 "Num 1"] h
  have v: "isBlurhashValid ''00000!'' = (True, None)" by blast
  from valid_hash_decode_throws [of "''00000!''" 0 5 exact_host 2 2 "Num 1"] v n i
  have "\<exists>e. decode exact_host ''00000!'' 2 2 (Num 1) = Inl e" by blast
  with h v n show ?thesis by blast
qed

section \<open>Properties of the CSS generator\<close>

lemma collect_map:
  assumes "\<forall>x \<in> set xs. f x = Inr (g x)"
  shows "collect f xs = Inr (map g xs)"
  using assms by (induction xs) simp_all

lemma decode_length:
  assumes "decode H hash wd ht pn = Inr pixels"
  shows "length pixels = wd * ht * 4"
  using assms by (auto simp: decode_def length_renderPixels split: sum.splits)

lemma decode_nonempty:
  assumes "decode H hash wd ht pn = Inr pixels"
  shows "hash \<noteq> []"
  using assms
  by (auto simp: decode_def decodeComponents_def validateBlurhash_def split: sum.splits)

lemma channel_index_bound:
  assumes "x < (wd::nat)" and "y < (ht::nat)" and "c < 4"
  shows "4 * x + c + y * (wd * 4) < wd * ht * 4"
proof -
  have "4 * x + c + y * (wd * 4) < (y + 1) * (wd * 4)" using assms(1,3) by simp
  also have "\<dots> \<le> ht * (wd * 4)" using assms(2) by (intro mult_le_mono1) simp
  finally show ?thesis by (simp add: mult_ac)
qed

lemma getPixel_ok:
  assumes "length pixelBytes = wd * ht * 4" and "x < wd" and "y < ht" and "c < 4"
  shows "getPixel pixelBytes x y wd c = Inr (pixelBytes ! (4 * x + c + y * (wd * 4)))"
  using channel_index_bound [OF assms(2-4)] assms(1)
  by (simp add: getPixel_def Let_def)

lemma getRgbColor_ok:
  assumes "length pixelBytes = wd * ht * 4" and "x < wd" and "y < ht"
  shows "getRgbColor pixelBytes x y wd =
           Inr (pixelBytes ! (4 * x + 0 + y * (wd * 4)), pixelBytes ! (4 * x + 1 + y * (wd * 4)),
                pixelBytes ! (4 * x + 2 + y * (wd * 4)))"
  using getPixel_ok [OF assms, of 0] getPixel_ok [OF assms, of 1] getPixel_ok [OF assms, of 2]
  by (simp add: getRgbColor_def)

text \<open>The percentage that the code computes, one double operation after the other.\<close>

lemma getRoundedPercentageOf_eq:
  assumes "whole \<noteq> 0"
  shows "getRoundedPercentageOf H part whole = \<lfloor>rnd H (rnd H (part / whole) * 100) + 1 / 2\<rfloor>"
  using assms by (simp add: getRoundedPercentageOf_def fmul_def fdiv_def Math_round_def)

lemma colorStop_ok:
  assumes "length pixelBytes = wd * ht * 4" and "x < wd" and "y < ht"
  shows "colorStop H pixelBytes wd y x =
           Inr (''rgb('' @ show_nat (unat (pixelBytes ! (4 * x + 0 + y * (wd * 4)))) @ '','' @
                show_nat (unat (pixelBytes ! (4 * x + 1 + y * (wd * 4)))) @ '','' @
                show_nat (unat (pixelBytes ! (4 * x + 2 + y * (wd * 4)))) @ '')'' @
                (if x = 0 then []
                 else '' '' @ show_int \<lfloor>rnd H (rnd H (real x / real wd) * 100) + 1 / 2\<rfloor> @ ''%'') @
                (if x + 1 = wd then []
                 else '' '' @
                   show_int \<lfloor>rnd H (rnd H (real (x + 1) / real wd) * 100) + 1 / 2\<rfloor> @ ''%''))"
proof -
  have w: "real wd \<noteq> 0" using assms(2) by simp
  have e: "(int x = int wd - 1) = (x + 1 = wd)" by auto
  show ?thesis
    unfolding colorStop_def getRgbColor_ok [OF assms] Let_def e
      getRoundedPercentageOf_eq [OF w] rgbText_def
    by simp
qed

lemma rowGradient_ok:
  assumes "length pixelBytes = wd * ht * 4" and "y < ht"
  shows "rowGradient H pixelBytes wd y =
           Inr (''linear-gradient(90deg,'' @
                join '','' (map (\<lambda>x. projr (colorStop H pixelBytes wd y x)) [0..<wd]) @ '')'')"
proof -
  have "\<forall>x \<in> set [0..<wd]. colorStop H pixelBytes wd y x =
          Inr (projr (colorStop H pixelBytes wd y x))"
    using colorStop_ok [OF assms(1) _ assms(2), of _ H] by simp
  from collect_map [OF this] show ?thesis by (simp add: rowGradient_def)
qed

lemma cssRows_ok:
  assumes "length pixelBytes = wd * ht * 4"
  shows "collect (cssRow H pixelBytes wd ht) [0..<ht] =
           Inr (map (\<lambda>y. (''linear-gradient(90deg,'' @
                             join '','' (map (\<lambda>x. projr (colorStop H pixelBytes wd y x)) [0..<wd]) @
                             '')'',
                           rowPosition H ht y)) [0..<ht])"
proof -
  have "\<forall>y \<in> set [0..<ht]. cssRow H pixelBytes wd ht y =
          Inr (''linear-gradient(90deg,'' @
                 join '','' (map (\<lambda>x. projr (colorStop H pixelBytes wd y x)) [0..<wd]) @ '')'',
               rowPosition H ht y)"
    using rowGradient_ok [OF assms, of _ H] by (simp add: cssRow_def)
  from collect_map [OF this] show ?thesis .
qed

text \<open>
  For a hash that decodes, CSS generation returns one gradient and one position per row
  of the raster.
\<close>

lemma css_struct_ok:
  assumes "decode H hash (nat (width options)) (nat (height options))
             (case punch options of None \<Rightarrow> Num 1.0 | Some p \<Rightarrow> p) = Inr pixels"
    and "1 \<le> width options" and "1 \<le> height options"
  shows "\<exists>css. blurhashToCssStruct H hash options = Inr css \<and>
           backgroundImage css =
             join '','' (map (\<lambda>y. ''linear-gradient(90deg,'' @
                  join '','' (map (\<lambda>x. projr (colorStop H pixels (nat (width options)) y x))
                               [0..<nat (width options)]) @ '')'')
                [0..<nat (height options)]) \<and>
           backgroundPosition css =
             join '','' (map (rowPosition H (nat (height options))) [0..<nat (height options)])"
proof -
  let ?wd = "nat (width options)" and ?ht = "nat (height options)"
  let ?pn = "case punch options of None \<Rightarrow> Num 1.0 | Some p \<Rightarrow> p"
  have len: "length pixels = ?wd * ?ht * 4" using decode_length [OF assms(1)] .
  have ne: "hash \<noteq> []" using decode_nonempty [OF assms(1)] .
  have bytes: "blurhashToBytes H hash ?wd ?ht ?pn = Inr pixels"
    using assms(1) by (simp add: blurhashToBytes_def)
  show ?thesis
    using ne assms(2,3)
    by (simp add: blurhashToCssStruct_def Let_def bytes cssRows_ok [OF len] comp_def)
qed

text \<open>
  C5 (as the code has it). For every hash that decodes at a width and a height of at
  least 1, CSS generation succeeds. Its background image is the comma-joined list of
  one \<^verbatim>\<open>linear-gradient(90deg,...)\<close> per row of the raster, each made of one colour stop
  per pixel of the row: \<^verbatim>\<open>rgb(r,g,b)\<close> with the three bytes of the pixel in decimal, then
  the percentage at which the stop starts (except for the first pixel) and the
  percentage at which it ends (except for the last). Its background position is the
  comma-joined list of one entry per row: \<^verbatim>\<open>0 0\<close> for the row 0 and \<^verbatim>\<open>0 N%\<close> for a row
  \<open>y > 0\<close>. Every percentage is \<^verbatim>\<open>Math.round((part / whole) * 100)\<close> on doubles: the
  quotient is rounded to a double, its product with 100 is rounded to a double, and the
  result is the nearest integer, half-way cases going up. For a row, \<open>part\<close> is \<open>y\<close> and
  \<open>whole\<close> is \<open>height - 1\<close>; when the two operations are exact, \<open>N\<close> is
  \<open>100 * y / (height - 1)\<close> rounded half up.
\<close>

theorem css_rows_and_positions:
  assumes "decode H hash (nat (width options)) (nat (height options))
             (case punch options of None \<Rightarrow> Num 1.0 | Some p \<Rightarrow> p) = Inr pixels"
    and "1 \<le> width options" and "1 \<le> height options"
  shows "\<exists>css gradients positions.
           blurhashToCssStruct H hash options = Inr css \<and>
           backgroundImage css = join '','' gradients \<and>
           length gradients = nat (height options) \<and>
           (\<forall>y<nat (height options). \<exists>stops.
              gradients ! y = ''linear-gradient(90deg,'' @ join '','' stops @ '')'' \<and>
              length stops = nat (width options) \<and>
              (\<forall>x<nat (width options). stops ! x =
                 ''rgb('' @
                 show_nat (unat (pixels ! (4 * x + 0 + y * (nat (width options) * 4)))) @ '','' @
                 show_nat (unat (pixels ! (4 * x + 1 + y * (nat (width options) * 4)))) @ '','' @
                 show_nat (unat (pixels ! (4 * x + 2 + y * (nat (width options) * 4)))) @ '')'' @
                 (if x = 0 then []
                  else '' '' @
                    show_int \<lfloor>rnd H (rnd H (real x / real (nat (width options))) * 100) +
                               1 / 2\<rfloor> @ ''%'') @
                 (if x + 1 = nat (width options) then []
                  else '' '' @
                    show_int \<lfloor>rnd H (rnd H (real (x + 1) / real (nat (width options))) * 100) +
                               1 / 2\<rfloor> @ ''%''))) \<and>
           backgroundPosition css = join '','' positions \<and>
           length positions = nat (height options) \<and>
           positions ! 0 = ''0 0'' \<and>
           (\<forall>y. 0 < y \<and> y < nat (height options) \<longrightarrow>
              positions ! y =
                ''0 '' @
                show_int \<lfloor>rnd H (rnd H (real y / real_of_int (height options - 1)) * 100) +
                           1 / 2\<rfloor> @ ''%'' \<and>
              ((\<forall>v. rnd H v = v) \<longrightarrow>
                 positions ! y =
                   ''0 '' @
                   show_int \<lfloor>100 * real y / real_of_int (height options - 1) + 1 / 2\<rfloor> @
                   ''%''))"
proof -
  let ?wd = "nat (width options)" and ?ht = "nat (height options)"
  have len: "length pixels = ?wd * ?ht * 4" using decode_length [OF assms(1)] .
  define grad where "grad = (\<lambda>y. ''linear-gradient(90deg,'' @
      join '','' (map (\<lambda>x. projr (colorStop H pixels ?wd y x)) [0..<?wd]) @ '')'')"
  from css_struct_ok [OF assms] obtain css where
    c: "blurhashToCssStruct H hash options = Inr css"
      "backgroundImage css = join '','' (map grad [0..<?ht])"
      "backgroundPosition css = join '','' (map (rowPosition H ?ht) [0..<?ht])"
    unfolding grad_def by blast
  have pos0: "map (rowPosition H ?ht) [0..<?ht] ! 0 = ''0 0''"
    using assms(3) by (simp add: rowPosition_def)
  have posy: "map (rowPosition H ?ht) [0..<?ht] ! y =
        ''0 '' @ show_int \<lfloor>rnd H (rnd H (real y / real_of_int (height options - 1)) * 100) +
                           1 / 2\<rfloor> @ ''%'' \<and>
        ((\<forall>v. rnd H v = v) \<longrightarrow>
           map (rowPosition H ?ht) [0..<?ht] ! y =
             ''0 '' @ show_int \<lfloor>100 * real y / real_of_int (height options - 1) + 1 / 2\<rfloor> @
             ''%'')"
    if "0 < y \<and> y < ?ht" for y
  proof -
    have h: "int ?ht - 1 = height options - 1" using assms(3) by simp
    have n: "real_of_int (height options - 1) \<noteq> 0" using that by auto
    have "map (rowPosition H ?ht) [0..<?ht] ! y = rowPosition H ?ht y" using that by simp
    also have "\<dots> = ''0 '' @
        show_int \<lfloor>rnd H (rnd H (real y / real_of_int (height options - 1)) * 100) + 1 / 2\<rfloor> @
        ''%''"
      using that unfolding rowPosition_def h getRoundedPercentageOf_eq [OF n] by simp
    finally have 1: "map (rowPosition H ?ht) [0..<?ht] ! y = ''0 '' @
        show_int \<lfloor>rnd H (rnd H (real y / real_of_int (height options - 1)) * 100) + 1 / 2\<rfloor> @
        ''%''" .
    show ?thesis using 1 by (simp add: mult.commute)
  qed
  have row: "\<exists>stops. map grad [0..<?ht] ! y =
        ''linear-gradient(90deg,'' @ join '','' stops @ '')'' \<and>
      length stops = ?wd \<and>
      (\<forall>x<?wd. stops ! x =
         ''rgb('' @
         show_nat (unat (pixels ! (4 * x + 0 + y * (?wd * 4)))) @ '','' @
         show_nat (unat (pixels ! (4 * x + 1 + y * (?wd * 4)))) @ '','' @
         show_nat (unat (pixels ! (4 * x + 2 + y * (?wd * 4)))) @ '')'' @
         (if x = 0 then []
          else '' '' @ show_int \<lfloor>rnd H (rnd H (real x / real ?wd) * 100) + 1 / 2\<rfloor> @ ''%'') @
         (if x + 1 = ?wd then []
          else '' '' @ show_int \<lfloor>rnd H (rnd H (real (x + 1) / real ?wd) * 100) + 1 / 2\<rfloor> @
            ''%''))"
    if "y < ?ht" for y
  proof (intro exI conjI allI impI)
    show "map grad [0..<?ht] ! y = ''linear-gradient(90deg,'' @
        join '','' (map (\<lambda>x. projr (colorStop H pixels ?wd y x)) [0..<?wd]) @ '')''"
      using that by (simp add: grad_def)
    show "length (map (\<lambda>x. projr (colorStop H pixels ?wd y x)) [0..<?wd]) = ?wd" by simp
  next
    fix x assume x: "x < ?wd"
    then have "map (\<lambda>x. projr (colorStop H pixels ?wd y x)) [0..<?wd] ! x =
        projr (colorStop H pixels ?wd y x)" by simp
    then show "map (\<lambda>x. projr (colorStop H pixels ?wd y x)) [0..<?wd] ! x =
         ''rgb('' @
         show_nat (unat (pixels ! (4 * x + 0 + y * (?wd * 4)))) @ '','' @
         show_nat (unat (pixels ! (4 * x + 1 + y * (?wd * 4)))) @ '','' @
         show_nat (unat (pixels ! (4 * x + 2 + y * (?wd * 4)))) @ '')'' @
         (if x = 0 then []
          else '' '' @ show_int \<lfloor>rnd H (rnd H (real x / real ?wd) * 100) + 1 / 2\<rfloor> @ ''%'') @
         (if x + 1 = ?wd then []
          else '' '' @ show_int \<lfloor>rnd H (rnd H (real (x + 1) / real ?wd) * 100) + 1 / 2\<rfloor> @
            ''%'')"
      unfolding colorStop_ok [OF len x that] by simp
  qed
  show ?thesis
  proof (intro exI conjI)
    show "blurhashToCssStruct H hash options = Inr css" by (rule c(1))
    show "backgroundImage css = join '','' (map grad [0..<?ht])" by (rule c(2))
    show "backgroundPosition css = join '','' (map (rowPosition H ?ht) [0..<?ht])" by (rule c(3))
    show "length (map grad [0..<?ht]) = ?ht" "length (map (rowPosition H ?ht) [0..<?ht]) = ?ht"
      by simp_all
    show "map (rowPosition H ?ht) [0..<?ht] ! 0 = ''0 0''" by (rule pos0)
    show "\<forall>y. 0 < y \<and> y < ?ht \<longrightarrow>
        map (rowPosition H ?ht) [0..<?ht] ! y =
          ''0 '' @ show_int \<lfloor>rnd H (rnd H (real y / real_of_int (height options - 1)) * 100) +
                             1 / 2\<rfloor> @ ''%'' \<and>
          ((\<forall>v. rnd H v = v) \<longrightarrow>
             map (rowPosition H ?ht) [0..<?ht] ! y =
               ''0 '' @ show_int \<lfloor>100 * real y / real_of_int (height options - 1) + 1 / 2\<rfloor> @
               ''%'')"
      using posy by blast
    show "\<forall>y<?ht. \<exists>stops. map grad [0..<?ht] ! y =
        ''linear-gradient(90deg,'' @ join '','' stops @ '')'' \<and>
      length stops = ?wd \<and>
      (\<forall>x<?wd. stops ! x =
         ''rgb('' @
         show_nat (unat (pixels ! (4 * x + 0 + y * (?wd * 4)))) @ '','' @
         show_nat (unat (pixels ! (4 * x + 1 + y * (?wd * 4)))) @ '','' @
         show_nat (unat (pixels ! (4 * x + 2 + y * (?wd * 4)))) @ '')'' @
         (if x = 0 then []
          else '' '' @ show_int \<lfloor>rnd H (rnd H (real x / real ?wd) * 100) + 1 / 2\<rfloor> @ ''%'') @
         (if x + 1 = ?wd then []
          else '' '' @ show_int \<lfloor>rnd H (rnd H (real (x + 1) / real ?wd) * 100) + 1 / 2\<rfloor> @
            ''%''))"
      using row by blast
  qed
qed

text \<open>
  On the exact host, at 2 by 2: the background image has two gradients, the first with
  the two colour stops of the row 0 meeting at 50%, and the positions are
  \<^verbatim>\<open>0 0,0 100%\<close>.
\<close>

theorem css_rows_and_positions_witness:
  "\<exists>pixels css g1.
     decode exact_host ''LGF5?]00~q%M-;%M%M9Fxu-;tRof'' 2 2 (Num 1) = Inr pixels \<and>
     (\<forall>v. rnd exact_host v = v) \<and>
     blurhashToCssStruct exact_host ''LGF5?]00~q%M-;%M%M9Fxu-;tRof''
       \<lparr> width = 2, height = 2, blurRadius = None, scaleFactor = None, punch = None \<rparr> = Inr css \<and>
     backgroundImage css =
       ''linear-gradient(90deg,rgb('' @ show_nat (unat (pixels ! 0)) @ '','' @
       show_nat (unat (pixels ! 1)) @ '','' @ show_nat (unat (pixels ! 2)) @ '') 50%,rgb('' @
       show_nat (unat (pixels ! 4)) @ '','' @ show_nat (unat (pixels ! 5)) @ '','' @
       show_nat (unat (pixels ! 6)) @ '') 50%),'' @ g1 \<and>
     backgroundPosition css = ''0 0,0 100%''"
proof -
  let ?o = "\<lparr> width = 2, height = 2, blurRadius = None, scaleFactor = None, punch = None \<rparr>"
  have v: "validateBlurhash ''LGF5?]00~q%M-;%M%M9Fxu-;tRof'' = Inr ()" by code_simp
  have a: "set ''LGF5?]00~q%M-;%M%M9Fxu-;tRof'' \<subseteq> set BASE83_CHARS" by code_simp
  have e: "\<forall>v. rnd exact_host v = v" by (simp add: exact_host_def)
  obtain pixels where
    d: "decode exact_host ''LGF5?]00~q%M-;%M%M9Fxu-;tRof'' 2 2 (Num 1) = Inr pixels"
    using decode_ok [OF v a] by blast
  then have d': "decode exact_host ''LGF5?]00~q%M-;%M%M9Fxu-;tRof'' (nat (width ?o)) (nat (height ?o))
      (case punch ?o of None \<Rightarrow> Num 1.0 | Some p \<Rightarrow> p) = Inr pixels" by simp
  have w: "1 \<le> width ?o" and h: "1 \<le> height ?o" by simp_all
  from css_rows_and_positions [OF d' w h] obtain css gradients positions where r:
    "blurhashToCssStruct exact_host ''LGF5?]00~q%M-;%M%M9Fxu-;tRof'' ?o = Inr css"
    "backgroundImage css = join '','' gradients" "length gradients = nat (height ?o)"
    "\<forall>y<nat (height ?o). \<exists>stops.
        gradients ! y = ''linear-gradient(90deg,'' @ join '','' stops @ '')'' \<and>
        length stops = nat (width ?o) \<and>
        (\<forall>x<nat (width ?o). stops ! x =
           ''rgb('' @
           show_nat (unat (pixels ! (4 * x + 0 + y * (nat (width ?o) * 4)))) @ '','' @
           show_nat (unat (pixels ! (4 * x + 1 + y * (nat (width ?o) * 4)))) @ '','' @
           show_nat (unat (pixels ! (4 * x + 2 + y * (nat (width ?o) * 4)))) @ '')'' @
           (if x = 0 then []
            else '' '' @
              show_int \<lfloor>rnd exact_host (rnd exact_host (real x / real (nat (width ?o))) * 100) +
                         1 / 2\<rfloor> @ ''%'') @
           (if x + 1 = nat (width ?o) then []
            else '' '' @
              show_int \<lfloor>rnd exact_host (rnd exact_host (real (x + 1) / real (nat (width ?o))) * 100) +
                         1 / 2\<rfloor> @ ''%''))"
    "backgroundPosition css = join '','' positions" "length positions = nat (height ?o)"
    "positions ! 0 = ''0 0''"
    "\<forall>y. 0 < y \<and> y < nat (height ?o) \<longrightarrow>
        positions ! y =
          ''0 '' @
          show_int \<lfloor>rnd exact_host (rnd exact_host (real y / real_of_int (height ?o - 1)) * 100) +
                     1 / 2\<rfloor> @ ''%'' \<and>
        ((\<forall>v. rnd exact_host v = v) \<longrightarrow>
           positions ! y =
             ''0 '' @ show_int \<lfloor>100 * real y / real_of_int (height ?o - 1) + 1 / 2\<rfloor> @ ''%'')"
    by blast
  from r(3) obtain g0 g1 where g: "gradients = [g0, g1]"
    by (auto simp: numeral_2_eq_2 length_Suc_conv)
  from r(6) obtain p0 p1 where p: "positions = [p0, p1]"
    by (auto simp: numeral_2_eq_2 length_Suc_conv)
  have s100: "show_int 100 = ''100''" and s50: "show_int 50 = ''50''"
    by (simp_all add: show_int_def show_nat.simps digit_char_def)
  from r(7) p have p0: "p0 = ''0 0''" by simp
  have "positions ! 1 =
      ''0 '' @ show_int \<lfloor>100 * real 1 / real_of_int (height ?o - 1) + 1 / 2\<rfloor> @ ''%''"
    using r(8) [rule_format, of 1] e by simp
  with p s100 have p1: "p1 = ''0 100%''" by simp
  from r(4) [rule_format, of 0] obtain stops where s:
    "gradients ! 0 = ''linear-gradient(90deg,'' @ join '','' stops @ '')''"
    "length stops = nat (width ?o)"
    "\<forall>x<nat (width ?o). stops ! x =
           ''rgb('' @
           show_nat (unat (pixels ! (4 * x + 0 + 0 * (nat (width ?o) * 4)))) @ '','' @
           show_nat (unat (pixels ! (4 * x + 1 + 0 * (nat (width ?o) * 4)))) @ '','' @
           show_nat (unat (pixels ! (4 * x + 2 + 0 * (nat (width ?o) * 4)))) @ '')'' @
           (if x = 0 then []
            else '' '' @
              show_int \<lfloor>rnd exact_host (rnd exact_host (real x / real (nat (width ?o))) * 100) +
                         1 / 2\<rfloor> @ ''%'') @
           (if x + 1 = nat (width ?o) then []
            else '' '' @
              show_int \<lfloor>rnd exact_host (rnd exact_host (real (x + 1) / real (nat (width ?o))) * 100) +
                         1 / 2\<rfloor> @ ''%'')"
    by auto
  from s(2) obtain s0 s1 where st: "stops = [s0, s1]"
    by (auto simp: numeral_2_eq_2 length_Suc_conv)
  have s0: "s0 = ''rgb('' @ show_nat (unat (pixels ! 0)) @ '','' @
      show_nat (unat (pixels ! 1)) @ '','' @ show_nat (unat (pixels ! 2)) @ '') 50%''"
    using s(3) [rule_format, of 0] st by (simp add: exact_host_def s50 numeral_2_eq_2)
  have s1: "s1 = ''rgb('' @ show_nat (unat (pixels ! 4)) @ '','' @
      show_nat (unat (pixels ! 5)) @ '','' @ show_nat (unat (pixels ! 6)) @ '') 50%''"
    using s(3) [rule_format, of 1] st by (simp add: exact_host_def s50)
  have g0: "g0 = ''linear-gradient(90deg,'' @ s0 @ '','' @ s1 @ '')''"
    using s(1) g st by simp
  from d e r(1,2,5) g p p0 p1 g0 s0 s1 show ?thesis
    by (intro exI [of _ pixels] exI [of _ css] exI [of _ g1]) simp
qed

text \<open>Rounding to a double, for a number between two powers of 2 that are given.\<close>

lemma binary64_between:
  assumes "2 powr of_int n \<le> x" and "x < 2 powr of_int (n + 1)"
  shows "binary64 x =
           of_int (round_half_even (x / 2 powr of_int (n - 52))) * 2 powr of_int (n - 52)"
proof -
  have "0 < (2::real) powr of_int n" by simp
  with assms(1) have p: "0 < x" by linarith
  have "\<lfloor>log 2 x\<rfloor> = n"
    using assms p by (subst floor_log_eq_powr_iff) simp_all
  with p show ?thesis by (simp add: binary64_def Let_def)
qed

text \<open>
  The double nearest to \<open>23 / 40\<close> lies below it, and so does the double nearest to the
  product of that double with 100, which lies below \<open>57.5\<close>.
\<close>

lemma binary64_quotient_23_40: "binary64 (23 / 40) = 5179139571476070 / 2 ^ 53"
  by (subst binary64_between [of "- 1"])
    (simp_all add: powr_minus_divide round_half_even_def Let_def)

lemma binary64_product_23_40:
  "binary64 (5179139571476070 / 2 ^ 53 * 100) = 8092405580431359 / 2 ^ 47"
  by (subst binary64_between [of 5])
    (simp_all add: powr_minus_divide round_half_even_def Let_def)

lemma getRoundedPercentageOf_23_40: "getRoundedPercentageOf double_host 23 40 = 57"
proof -
  have "getRoundedPercentageOf double_host 23 40 =
      \<lfloor>rnd double_host (rnd double_host (23 / 40) * 100) + 1 / 2\<rfloor>"
    by (rule getRoundedPercentageOf_eq) simp
  also have "\<dots> = \<lfloor>binary64 (binary64 (23 / 40) * 100) + 1 / 2\<rfloor>"
    by (simp add: double_host_def)
  also have "\<dots> = \<lfloor>(8092405580431359 / 2 ^ 47 :: real) + 1 / 2\<rfloor>"
    unfolding binary64_quotient_23_40 binary64_product_23_40 ..
  also have "\<dots> = 57" by simp
  finally show ?thesis .
qed

text \<open>
  C5 as stated fails. On doubles, the scenario hash at a width of 1 and a height of 41
  gives 41 positions, and the position of the row 23 is \<^verbatim>\<open>0 57%\<close>, whereas
  \<open>100 * 23 / 40 = 57.5\<close> rounds to 58.
\<close>

theorem css_position_rounding_counterexample:
  "\<not> isl (blurhashToCssStruct double_host ''LGF5?]00~q%M-;%M%M9Fxu-;tRof''
       \<lparr> width = 1, height = 41, blurRadius = None, scaleFactor = None, punch = None \<rparr>) \<and>
   backgroundPosition (projr (blurhashToCssStruct double_host ''LGF5?]00~q%M-;%M%M9Fxu-;tRof''
       \<lparr> width = 1, height = 41, blurRadius = None, scaleFactor = None, punch = None \<rparr>)) =
     join '','' (map (rowPosition double_host 41) [0..<41]) \<and>
   length (map (rowPosition double_host 41) [0..<41]) = 41 \<and>
   map (rowPosition double_host 41) [0..<41] ! 23 = ''0 57%'' \<and>
   ''0 '' @ show_int \<lfloor>100 * 23 / (41 - 1) + 1 / 2 :: real\<rfloor> @ ''%'' = ''0 58%''"
proof -
  let ?o = "\<lparr> width = 1, height = 41, blurRadius = None, scaleFactor = None, punch = None \<rparr>"
  have v: "validateBlurhash ''LGF5?]00~q%M-;%M%M9Fxu-;tRof'' = Inr ()" by code_simp
  have a: "set ''LGF5?]00~q%M-;%M%M9Fxu-;tRof'' \<subseteq> set BASE83_CHARS" by code_simp
  obtain pixels where
    "decode double_host ''LGF5?]00~q%M-;%M%M9Fxu-;tRof'' 1 41 (Num 1) = Inr pixels"
    using decode_ok [OF v a] by blast
  then have d: "decode double_host ''LGF5?]00~q%M-;%M%M9Fxu-;tRof'' (nat (width ?o))
      (nat (height ?o)) (case punch ?o of None \<Rightarrow> Num 1.0 | Some p \<Rightarrow> p) = Inr pixels" by simp
  have w: "1 \<le> width ?o" and h: "1 \<le> height ?o" by simp_all
  from css_struct_ok [OF d w h] obtain css where c:
    "blurhashToCssStruct double_host ''LGF5?]00~q%M-;%M%M9Fxu-;tRof'' ?o = Inr css"
    "backgroundPosition css = join '','' (map (rowPosition double_host 41) [0..<41])"
    by auto
  have s: "show_int 57 = ''57''" "show_int 58 = ''58''"
    by (simp_all add: show_int_def show_nat.simps digit_char_def)
  have r: "map (rowPosition double_host 41) [0..<41] ! 23 = ''0 57%''"
    by (simp add: rowPosition_def getRoundedPercentageOf_23_40 s)
  have f: "\<lfloor>100 * 23 / (41 - 1) + 1 / 2 :: real\<rfloor> = 58" by simp
  from c r s show ?thesis unfolding f by simp
qed

section \<open>Properties of the placeholder style\<close>

text \<open>
  C8 (as the code has it). A blurhash that fails the validity check gets the static
  style \<^verbatim>\<open>background-color: #f0f0f0;\<close>. A blurhash that passes the check and on which
  CSS generation throws gets the animated gradient; so does every valid blurhash when
  the aspect ratio is zero. The two styles differ, and the function returns a style in
  every case: no error leaves it.
\<close>

theorem generateBlurhashCSS_outcomes:
  "(\<not> isValidBlurhash blurhash \<longrightarrow>
      generateBlurhashCSS H blurhash aspectRatio = invalidHashStyle) \<and>
   (isValidBlurhash blurhash \<and> aspectRatio = Num ratio \<and> ratio \<noteq> 0 \<and>
      blurhashToCssObject H blurhash
        \<lparr> width = 32, height = Math_round (fdiv H 32 ratio), blurRadius = Some 16,
          scaleFactor = Some (lit H 1.1), punch = Some (Num (lit H 1.2)) \<rparr> = Inl e \<longrightarrow>
      generateBlurhashCSS H blurhash aspectRatio = gradientStyle) \<and>
   (isValidBlurhash blurhash \<and> aspectRatio = Num 0 \<longrightarrow>
      generateBlurhashCSS H blurhash aspectRatio = gradientStyle) \<and>
   (isValidBlurhash blurhash \<and> aspectRatio = NaN \<and>
      decodeComponents H blurhash (Num (lit H 1.2)) = Inl e \<longrightarrow>
      generateBlurhashCSS H blurhash aspectRatio = gradientStyle) \<and>
   invalidHashStyle \<noteq> gradientStyle"
  by (simp add: generateBlurhashCSS_def Let_def invalidHashStyle_def gradientStyle_def)

text \<open>
  The cases at concrete values: \<^verbatim>\<open>abc\<close> is invalid; \<^verbatim>\<open>00000!\<close> is valid and its decoding
  throws.
\<close>

theorem generateBlurhashCSS_outcomes_witness:
  "\<not> isValidBlurhash ''abc'' \<and>
   generateBlurhashCSS exact_host ''abc'' (Num 1) = ''background-color: #f0f0f0;'' \<and>
   isValidBlurhash ''00000!'' \<and>
   blurhashToCssObject exact_host ''00000!''
     \<lparr> width = 32, height = Math_round (fdiv exact_host 32 1), blurRadius = Some 16,
       scaleFactor = Some (lit exact_host 1.1), punch = Some (Num (lit exact_host 1.2)) \<rparr> =
     Inl (Error ''Failed to decode BlurHash: Invalid base83 character: !'') \<and>
   generateBlurhashCSS exact_host ''00000!'' (Num 1) = gradientStyle \<and>
   generateBlurhashCSS exact_host ''00000!'' (Num 0) = gradientStyle \<and>
   generateBlurhashCSS exact_host ''00000!'' NaN = gradientStyle"
proof -
  have i: "\<not> isValidBlurhash ''abc''" by code_simp
  have v: "isValidBlurhash ''00000!''" by code_simp
  have h: "Math_round (fdiv exact_host 32 1) = 32"
    by (simp add: Math_round_def fdiv_def exact_host_def)
  have c: "blurhashToCssObject exact_host ''00000!''
     \<lparr> width = 32, height = Math_round (fdiv exact_host 32 1), blurRadius = Some 16,
       scaleFactor = Some (lit exact_host 1.1), punch = Some (Num (lit exact_host 1.2)) \<rparr> =
     Inl (Error ''Failed to decode BlurHash: Invalid base83 character: !'')"
    by (simp add: blurhashToCssObject_def blurhashToCssStruct_def blurhashToBytes_def h
        decode_bad_symbol)
  have n: "decodeComponents exact_host ''00000!'' (Num (lit exact_host 1.2)) =
      Inl (ValidationError ''Invalid base83 character: !'')"
    by (rule decodeComponents_bad_symbol)
  from generateBlurhashCSS_outcomes [of "''abc''" exact_host "Num 1"] i
  have 1: "generateBlurhashCSS exact_host ''abc'' (Num 1) = ''background-color: #f0f0f0;''"
    by (simp add: invalidHashStyle_def)
  from generateBlurhashCSS_outcomes [of "''00000!''" exact_host "Num 1" 1
      "Error ''Failed to decode BlurHash: Invalid base83 character: !''"] v c
  have 2: "generateBlurhashCSS exact_host ''00000!'' (Num 1) = gradientStyle" by simp
  from generateBlurhashCSS_outcomes [of "''00000!''" exact_host "Num 0"] v
  have 3: "generateBlurhashCSS exact_host ''00000!'' (Num 0) = gradientStyle" by simp
  from generateBlurhashCSS_outcomes [of "''00000!''" exact_host NaN _
      "ValidationError ''Invalid base83 character: !''"] v n
  have 4: "generateBlurhashCSS exact_host ''00000!'' NaN = gradientStyle" by simp
  from i v c 1 2 3 4 show ?thesis by simp
qed

text \<open>
  C8 as stated fails on an invalid hash: CSS generation fails on \<^verbatim>\<open>abc\<close>, and the style
  the element uses for it is the static colour, which is neither a gradient nor
  animated.
\<close>

theorem generateBlurhashCSS_invalid_counterexample:
  "\<not> isValidBlurhash ''abc'' \<and>
   blurhashToCssObject exact_host ''abc''
     \<lparr> width = 32, height = 32, blurRadius = Some 16,
       scaleFactor = Some (lit exact_host 1.1), punch = Some (Num (lit exact_host 1.2)) \<rparr> =
     Inl (Error ''Failed to decode BlurHash: The blurhash string must be at least 6 characters'') \<and>
   generateBlurhashCSS exact_host ''abc'' (Num 1) = ''background-color: #f0f0f0;'' \<and>
   generateBlurhashCSS exact_host ''abc'' (Num 1) \<noteq> gradientStyle \<and>
   \<not> mentions (generateBlurhashCSS exact_host ''abc'' (Num 1)) ''gradient'' \<and>
   \<not> mentions (generateBlurhashCSS exact_host ''abc'' (Num 1)) ''animation''"
proof -
  have i: "\<not> isValidBlurhash ''abc''" by code_simp
  have v: "validateBlurhash ''abc'' =
     Inl (ValidationError ''The blurhash string must be at least 6 characters'')" by code_simp
  have c: "blurhashToCssObject exact_host ''abc''
     \<lparr> width = 32, height = 32, blurRadius = Some 16,
       scaleFactor = Some (lit exact_host 1.1), punch = Some (Num (lit exact_host 1.2)) \<rparr> =
     Inl (Error ''Failed to decode BlurHash: The blurhash string must be at least 6 characters'')"
    by (simp add: blurhashToCssObject_def blurhashToCssStruct_def blurhashToBytes_def
        decode_validation_error [OF v])
  have g: "generateBlurhashCSS exact_host ''abc'' (Num 1) = ''background-color: #f0f0f0;''"
    using i by (simp add: generateBlurhashCSS_def invalidHashStyle_def)
  have m: "\<not> mentions ''background-color: #f0f0f0;'' ''gradient''"
    "\<not> mentions ''background-color: #f0f0f0;'' ''animation''" by code_simp+
  from i c g m show ?thesis by (simp add: gradientStyle_def)
qed

section \<open>Properties of the element\<close>

text \<open>What each callback leaves unchanged.\<close>

lemma removeAll_only: "set xs \<subseteq> {x} \<Longrightarrow> removeAll x xs = []"
  by (induction xs) auto

lemma addClass_fields [simp]:
  "requests (addClass n c w) = requests w" "dispatched (addClass n c w) = dispatched w"
  "isImageLoaded (addClass n c w) = isImageLoaded w" "isImageError (addClass n c w) = isImageError w"
  "loadingTimer (addClass n c w) = loadingTimer w" "pendingTimers (addClass n c w) = pendingTimers w"
  "isInViewport (addClass n c w) = isInViewport w" "observer (addClass n c w) = observer w"
  "liveObservers (addClass n c w) = liveObservers w" "nextObserver (addClass n c w) = nextObserver w"
  "loadStartTime (addClass n c w) = loadStartTime w" "nextTimer (addClass n c w) = nextTimer w"
  "blurhashLayer (addClass n c w) = blurhashLayer w" "imageLayer (addClass n c w) = imageLayer w"
  "errorLayer (addClass n c w) = errorLayer w" "attributes (addClass n c w) = attributes w"
  "clock (addClass n c w) = clock w"
  by (simp_all add: addClass_def)

lemma removeClass_fields [simp]:
  "requests (removeClass n c w) = requests w" "dispatched (removeClass n c w) = dispatched w"
  "isImageLoaded (removeClass n c w) = isImageLoaded w"
  "isImageError (removeClass n c w) = isImageError w"
  "loadingTimer (removeClass n c w) = loadingTimer w"
  "pendingTimers (removeClass n c w) = pendingTimers w"
  "isInViewport (removeClass n c w) = isInViewport w" "observer (removeClass n c w) = observer w"
  "liveObservers (removeClass n c w) = liveObservers w"
  "nextObserver (removeClass n c w) = nextObserver w"
  "loadStartTime (removeClass n c w) = loadStartTime w"
  "nextTimer (removeClass n c w) = nextTimer w"
  "blurhashLayer (removeClass n c w) = blurhashLayer w"
  "imageLayer (removeClass n c w) = imageLayer w"
  "errorLayer (removeClass n c w) = errorLayer w" "attributes (removeClass n c w) = attributes w"
  "clock (removeClass n c w) = clock w"
  by (simp_all add: removeClass_def)

lemma addDebugIndicator_fields [simp]:
  "requests (addDebugIndicator w) = requests w" "dispatched (addDebugIndicator w) = dispatched w"
  "isImageLoaded (addDebugIndicator w) = isImageLoaded w"
  "isImageError (addDebugIndicator w) = isImageError w"
  "loadingTimer (addDebugIndicator w) = loadingTimer w"
  "pendingTimers (addDebugIndicator w) = pendingTimers w"
  "isInViewport (addDebugIndicator w) = isInViewport w"
  "observer (addDebugIndicator w) = observer w"
  "liveObservers (addDebugIndicator w) = liveObservers w"
  "nextObserver (addDebugIndicator w) = nextObserver w"
  "nextTimer (addDebugIndicator w) = nextTimer w"
  by (simp_all add: addDebugIndicator_def split: option.splits)

lemma removeDebugIndicator_fields [simp]:
  "requests (removeDebugIndicator w) = requests w"
  "dispatched (removeDebugIndicator w) = dispatched w"
  "isImageLoaded (removeDebugIndicator w) = isImageLoaded w"
  "isImageError (removeDebugIndicator w) = isImageError w"
  "loadingTimer (removeDebugIndicator w) = loadingTimer w"
  "pendingTimers (removeDebugIndicator w) = pendingTimers w"
  "isInViewport (removeDebugIndicator w) = isInViewport w"
  "observer (removeDebugIndicator w) = observer w"
  "liveObservers (removeDebugIndicator w) = liveObservers w"
  "nextObserver (removeDebugIndicator w) = nextObserver w"
  "nextTimer (removeDebugIndicator w) = nextTimer w"
  by (simp_all add: removeDebugIndicator_def split: option.splits)

lemma render_fields [simp]:
  "requests (render w) = requests w" "dispatched (render w) = dispatched w"
  "isImageLoaded (render w) = isImageLoaded w" "isImageError (render w) = isImageError w"
  "loadingTimer (render w) = loadingTimer w" "pendingTimers (render w) = pendingTimers w"
  "isInViewport (render w) = isInViewport w" "observer (render w) = observer w"
  "liveObservers (render w) = liveObservers w" "nextObserver (render w) = nextObserver w"
  "loadStartTime (render w) = loadStartTime w" "nextTimer (render w) = nextTimer w"
  "attributes (render w) = attributes w"
  by (simp_all add: render_def Let_def)

lemma cleanupObserver_fields [simp]:
  "requests (cleanupObserver w) = requests w" "dispatched (cleanupObserver w) = dispatched w"
  "isImageLoaded (cleanupObserver w) = isImageLoaded w"
  "isImageError (cleanupObserver w) = isImageError w"
  "loadingTimer (cleanupObserver w) = loadingTimer w"
  "pendingTimers (cleanupObserver w) = pendingTimers w"
  "isInViewport (cleanupObserver w) = isInViewport w"
  "nextObserver (cleanupObserver w) = nextObserver w"
  "loadStartTime (cleanupObserver w) = loadStartTime w"
  by (simp_all add: cleanupObserver_def split: option.splits)

lemma setupIntersectionObserver_fields [simp]:
  "requests (setupIntersectionObserver w) = requests w"
  "dispatched (setupIntersectionObserver w) = dispatched w"
  "isImageLoaded (setupIntersectionObserver w) = isImageLoaded w"
  "isImageError (setupIntersectionObserver w) = isImageError w"
  "loadingTimer (setupIntersectionObserver w) = loadingTimer w"
  "pendingTimers (setupIntersectionObserver w) = pendingTimers w"
  "isInViewport (setupIntersectionObserver w) = isInViewport w"
  "loadStartTime (setupIntersectionObserver w) = loadStartTime w"
  by (simp_all add: setupIntersectionObserver_def Let_def)

lemma loadImage_fields [simp]:
  "dispatched (loadImage w) = dispatched w"
  "isImageLoaded (loadImage w) = isImageLoaded w" "isImageError (loadImage w) = isImageError w"
  "loadingTimer (loadImage w) = loadingTimer w" "pendingTimers (loadImage w) = pendingTimers w"
  "isInViewport (loadImage w) = isInViewport w" "observer (loadImage w) = observer w"
  "liveObservers (loadImage w) = liveObservers w" "nextObserver (loadImage w) = nextObserver w"
  by (simp_all add: loadImage_def Let_def split: option.splits)

text \<open>The list of the images being fetched only grows.\<close>

lemma requests_loadImage: "requests (loadImage w) = [] \<Longrightarrow> requests w = []"
  by (simp add: loadImage_def Let_def split: option.splits if_splits)

lemma handleViewportEntry_fields [simp]:
  "dispatched (handleViewportEntry w) = dispatched w"
  "isImageLoaded (handleViewportEntry w) = isImageLoaded w"
  "isImageError (handleViewportEntry w) = isImageError w"
  "isInViewport (handleViewportEntry w) = isInViewport w"
  "observer (handleViewportEntry w) = observer w"
  "liveObservers (handleViewportEntry w) = liveObservers w"
  "nextObserver (handleViewportEntry w) = nextObserver w"
  by (simp_all add: handleViewportEntry_def Let_def)

lemma handleViewportExit_fields [simp]:
  "requests (handleViewportExit w) = requests w"
  "dispatched (handleViewportExit w) = dispatched w"
  "isImageLoaded (handleViewportExit w) = isImageLoaded w"
  "isImageError (handleViewportExit w) = isImageError w"
  "isInViewport (handleViewportExit w) = isInViewport w"
  "observer (handleViewportExit w) = observer w"
  "liveObservers (handleViewportExit w) = liveObservers w"
  "nextObserver (handleViewportExit w) = nextObserver w"
  by (simp_all add: handleViewportExit_def split: option.splits)

lemma requests_handleViewportEntry:
  "requests (handleViewportEntry w) = [] \<Longrightarrow> requests w = []"
  by (auto simp: handleViewportEntry_def Let_def dest: requests_loadImage split: if_splits)

lemma requests_intersectionEntry:
  "requests (intersectionEntry b w) = [] \<Longrightarrow> requests w = []"
  by (auto simp: intersectionEntry_def dest: requests_handleViewportEntry split: if_splits)

lemma requests_observerCallback:
  "requests (observerCallback es w) = [] \<Longrightarrow> requests w = []"
  unfolding observerCallback_def
  by (induction es arbitrary: w) (auto dest: requests_intersectionEntry)

lemma requests_step: "requests (step i w) = [] \<Longrightarrow> requests w = []"
proof (cases i)
  case Connected
  then show "requests (step i w) = [] \<Longrightarrow> requests w = []"
    by (simp add: connectedCallback_def)
next
  case Disconnected
  then show "requests (step i w) = [] \<Longrightarrow> requests w = []"
    by (simp add: disconnectedCallback_def cleanupTimer_def split: option.splits if_splits)
next
  case (AttributeChanged name v)
  then show "requests (step i w) = [] \<Longrightarrow> requests w = []"
    by (simp add: attributeChangedCallback_def Let_def split: if_splits)
next
  case (Intersection ob es)
  then show "requests (step i w) = [] \<Longrightarrow> requests w = []"
    by (auto dest: requests_observerCallback split: if_splits)
next
  case (TimerFired t)
  then show "requests (step i w) = [] \<Longrightarrow> requests w = []"
    by (auto simp: timerCallback_def dest: requests_loadImage split: if_splits)
next
  case (ImageLoaded k)
  then show "requests (step i w) = [] \<Longrightarrow> requests w = []"
    by (auto simp: onload_def settle_def dispatchEvent_def Let_def split: if_splits option.splits)
next
  case (ImageFailed k)
  then show "requests (step i w) = [] \<Longrightarrow> requests w = []"
    by (auto simp: onerror_def settle_def dispatchEvent_def Let_def split: if_splits option.splits)
next
  case (Tick t)
  then show "requests (step i w) = [] \<Longrightarrow> requests w = []" by simp
qed

lemma requests_run: "requests (run is w) = [] \<Longrightarrow> requests w = []"
  unfolding run_def
  by (induction "is" arbitrary: w) (auto dest: requests_step)

text \<open>As long as no fetch has started, the element stays \<open>idle\<close>.\<close>

lemma idle_newElement: "idle (newElement t)"
  by (simp add: idle_def newElement_def)

lemma idle_handleViewportEntry:
  assumes "idle (w\<lparr> isInViewport := False \<rparr>)"
    and "requests (handleViewportEntry (w\<lparr> isInViewport := True \<rparr>)) = []"
  shows "idle (handleViewportEntry (w\<lparr> isInViewport := True \<rparr>))"
proof (cases "debugMode (w\<lparr> isInViewport := True \<rparr>)")
  case True
  with assms(1) show ?thesis
    by (simp add: idle_def handleViewportEntry_def Let_def)
next
  case False
  with assms have "idle (loadImage (w\<lparr> isInViewport := True \<rparr>))"
    by (auto simp: idle_def handleViewportEntry_def dest: requests_loadImage)
  with False assms(1) show ?thesis
    by (simp add: idle_def handleViewportEntry_def)
qed

lemma idle_handleViewportExit:
  assumes "idle w"
  shows "idle (handleViewportExit (w\<lparr> isInViewport := False \<rparr>))"
  using assms
  by (auto simp: idle_def handleViewportExit_def removeAll_only split: option.splits)

lemma idle_intersectionEntry:
  assumes "idle w" and "requests (intersectionEntry b w) = []"
  shows "idle (intersectionEntry b w)"
proof -
  consider "b \<and> \<not> isInViewport w" | "\<not> b \<and> isInViewport w"
    | "\<not> (b \<and> \<not> isInViewport w) \<and> \<not> (\<not> b \<and> isInViewport w)" by blast
  then show ?thesis
  proof cases
    case 1
    then have "w\<lparr> isInViewport := False \<rparr> = w" by simp
    with assms(1) have "idle (w\<lparr> isInViewport := False \<rparr>)" by simp
    moreover from assms(2) 1
    have "requests (handleViewportEntry (w\<lparr> isInViewport := True \<rparr>)) = []"
      by (simp add: intersectionEntry_def)
    ultimately show ?thesis using 1
      by (simp add: intersectionEntry_def idle_handleViewportEntry)
  next
    case 2
    with idle_handleViewportExit [OF assms(1)] show ?thesis
      by (simp add: intersectionEntry_def)
  next
    case 3
    with assms(1) show ?thesis by (auto simp: intersectionEntry_def)
  qed
qed

lemma idle_observerCallback:
  "idle w \<Longrightarrow> requests (observerCallback es w) = [] \<Longrightarrow> idle (observerCallback es w)"
proof (induction es arbitrary: w)
  case Nil
  then show ?case by (simp add: observerCallback_def)
next
  case (Cons e es)
  from Cons.prems(2) have r: "requests (observerCallback es (intersectionEntry e w)) = []"
    by (simp add: observerCallback_def)
  then have "requests (intersectionEntry e w) = []" by (rule requests_observerCallback)
  with Cons.prems(1) have "idle (intersectionEntry e w)" by (rule idle_intersectionEntry)
  from Cons.IH [OF this r] show ?case by (simp add: observerCallback_def)
qed

lemma idle_step: "idle w \<Longrightarrow> requests (step i w) = [] \<Longrightarrow> idle (step i w)"
proof (cases i)
  case Connected
  then show "idle w \<Longrightarrow> requests (step i w) = [] \<Longrightarrow> idle (step i w)"
    by (simp add: idle_def connectedCallback_def)
next
  case Disconnected
  then show "idle w \<Longrightarrow> requests (step i w) = [] \<Longrightarrow> idle (step i w)"
    by (auto simp: idle_def disconnectedCallback_def cleanupTimer_def removeAll_only
        split: option.splits)
next
  case (AttributeChanged name v)
  then show "idle w \<Longrightarrow> requests (step i w) = [] \<Longrightarrow> idle (step i w)"
    by (simp add: idle_def attributeChangedCallback_def Let_def)
next
  case (Intersection ob es)
  then show "idle w \<Longrightarrow> requests (step i w) = [] \<Longrightarrow> idle (step i w)"
    by (auto intro: idle_observerCallback)
next
  case (TimerFired t)
  then show "idle w \<Longrightarrow> requests (step i w) = [] \<Longrightarrow> idle (step i w)"
    by (auto simp: idle_def timerCallback_def removeAll_only split: option.splits)
next
  case (ImageLoaded k)
  then show "idle w \<Longrightarrow> requests (step i w) = [] \<Longrightarrow> idle (step i w)"
    by (simp add: idle_def)
next
  case (ImageFailed k)
  then show "idle w \<Longrightarrow> requests (step i w) = [] \<Longrightarrow> idle (step i w)"
    by (simp add: idle_def)
next
  case (Tick t)
  then show "idle w \<Longrightarrow> requests (step i w) = [] \<Longrightarrow> idle (step i w)"
    by (simp add: idle_def)
qed

lemma idle_run: "idle w \<Longrightarrow> requests (run is w) = [] \<Longrightarrow> idle (run is w)"
proof (induction "is" arbitrary: w)
  case Nil
  then show ?case by (simp add: run_def)
next
  case (Cons i "is")
  from Cons.prems(2) have r: "requests (run is (step i w)) = []" by (simp add: run_def)
  then have "requests (step i w) = []" by (rule requests_run)
  with Cons.prems(1) have "idle (step i w)" by (rule idle_step)
  from Cons.IH [OF this r] show ?case by (simp add: run_def)
qed

text \<open>
  With no timer armed and no image being fetched, inputs that do not report the element
  as intersecting start nothing.
\<close>

lemma calm_intersectionEntry:
  assumes "requests w = [] \<and> dispatched w = [] \<and> pendingTimers w = []"
  shows "requests (intersectionEntry False w) = [] \<and>
         dispatched (intersectionEntry False w) = [] \<and>
         pendingTimers (intersectionEntry False w) = []"
  using assms
  by (auto simp: intersectionEntry_def handleViewportExit_def split: option.splits)

lemma calm_observerCallback:
  assumes "True \<notin> set es" and "requests w = [] \<and> dispatched w = [] \<and> pendingTimers w = []"
  shows "requests (observerCallback es w) = [] \<and> dispatched (observerCallback es w) = [] \<and>
         pendingTimers (observerCallback es w) = []"
  using assms
proof (induction es arbitrary: w)
  case Nil
  then show ?case by (simp add: observerCallback_def)
next
  case (Cons e es)
  then have e: "e = False" and es: "True \<notin> set es" by auto
  from Cons.IH [OF es calm_intersectionEntry [OF Cons.prems(2)]] e
  show ?case by (simp add: observerCallback_def)
qed

lemma calm_step:
  assumes "quiet i" and "requests w = [] \<and> dispatched w = [] \<and> pendingTimers w = []"
  shows "requests (step i w) = [] \<and> dispatched (step i w) = [] \<and> pendingTimers (step i w) = []"
proof (cases i)
  case Connected
  with assms show ?thesis by (simp add: connectedCallback_def)
next
  case Disconnected
  with assms show ?thesis
    by (auto simp: disconnectedCallback_def cleanupTimer_def split: option.splits)
next
  case (AttributeChanged name v)
  with assms show ?thesis by (simp add: attributeChangedCallback_def Let_def)
next
  case (Intersection ob es)
  with assms calm_observerCallback [of es w] show ?thesis by simp
next
  case (TimerFired t)
  with assms show ?thesis by simp
next
  case (ImageLoaded k)
  with assms show ?thesis by simp
next
  case (ImageFailed k)
  with assms show ?thesis by simp
next
  case (Tick t)
  with assms show ?thesis by simp
qed

lemma calm_run:
  assumes "list_all quiet later"
    and "requests w = [] \<and> dispatched w = [] \<and> pendingTimers w = []"
  shows "requests (run later w) = [] \<and> dispatched (run later w) = [] \<and>
         pendingTimers (run later w) = []"
  using assms
proof (induction later arbitrary: w)
  case Nil
  then show ?case by (simp add: run_def)
next
  case (Cons i later)
  then have q: "quiet i" and l: "list_all quiet later" by simp_all
  from Cons.IH [OF l calm_step [OF q Cons.prems(2)]] show ?case by (simp add: run_def)
qed

text \<open>
  Leaving the viewport before any fetch. Take any sequence of inputs to a new element
  after which the element is in the viewport and no fetch has started. When the
  observer then reports that the element left the viewport, no timer stays armed and
  the element holds no timer handle, no fetch is started and no event is dispatched;
  and this remains so under all further inputs until the observer reports the element
  as intersecting again.
\<close>

lemma exit_cancels_before_first_fetch:
  assumes "w = run inputs (newElement t)" and "requests w = []" and "isInViewport w"
    and "ob \<in> set (liveObservers w)" and "w' = step (Intersection ob [False]) w"
  shows "\<not> isInViewport w' \<and> pendingTimers w' = [] \<and> loadingTimer w' = None \<and>
         requests w' = [] \<and> dispatched w' = [] \<and>
         (\<forall>later. list_all quiet later \<longrightarrow>
            requests (run later w') = [] \<and> dispatched (run later w') = [] \<and>
            pendingTimers (run later w') = [])"
proof -
  have i: "idle w"
    using idle_run [OF idle_newElement, of inputs t] assms(1,2) by simp
  have w': "w' = handleViewportExit (w\<lparr> isInViewport := False \<rparr>)"
    using assms(3,4,5) by (simp add: observerCallback_def intersectionEntry_def)
  have a: "\<not> isInViewport w'" by (simp add: w')
  have b: "pendingTimers w' = [] \<and> loadingTimer w' = None"
    using i unfolding w'
    by (auto simp: idle_def handleViewportExit_def removeAll_only split: option.splits)
  have c: "requests w' = [] \<and> dispatched w' = []"
    using i unfolding w' by (simp add: idle_def)
  from calm_run b c have "\<forall>later. list_all quiet later \<longrightarrow>
            requests (run later w') = [] \<and> dispatched (run later w') = [] \<and>
            pendingTimers (run later w') = []" by blast
  with a b c show ?thesis by blast
qed

text \<open>
  An element in debug mode: entering the viewport arms the timer 1, leaving cancels
  it, and the element then starts no fetch, even when asked to run the cancelled timer.
\<close>

lemma exit_cancels_before_first_fetch_example:
  "pendingTimers (run [AttributeChanged ''src'' (Some ''a.png''),
       AttributeChanged ''debug'' (Some []), Connected, Intersection 1 [True]]
       (newElement 1000)) = [1] \<and>
   requests (run [AttributeChanged ''src'' (Some ''a.png''),
       AttributeChanged ''debug'' (Some []), Connected, Intersection 1 [True]]
       (newElement 1000)) = [] \<and>
   isInViewport (run [AttributeChanged ''src'' (Some ''a.png''),
       AttributeChanged ''debug'' (Some []), Connected, Intersection 1 [True]]
       (newElement 1000)) \<and>
   1 \<in> set (liveObservers (run [AttributeChanged ''src'' (Some ''a.png''),
       AttributeChanged ''debug'' (Some []), Connected, Intersection 1 [True]]
       (newElement 1000))) \<and>
   pendingTimers (step (Intersection 1 [False])
     (run [AttributeChanged ''src'' (Some ''a.png''),
       AttributeChanged ''debug'' (Some []), Connected, Intersection 1 [True]]
       (newElement 1000))) = [] \<and>
   requests (run [Tick 9000, TimerFired 1, Disconnected, Connected]
     (step (Intersection 1 [False])
       (run [AttributeChanged ''src'' (Some ''a.png''),
         AttributeChanged ''debug'' (Some []), Connected, Intersection 1 [True]]
         (newElement 1000)))) = []"
proof -
  let ?w = "run [AttributeChanged ''src'' (Some ''a.png''),
       AttributeChanged ''debug'' (Some []), Connected, Intersection 1 [True]]
       (newElement 1000)"
  have p: "pendingTimers ?w = [1]" by code_simp
  have r: "requests ?w = []" by code_simp
  have v: "isInViewport ?w" by code_simp
  have l: "1 \<in> set (liveObservers ?w)" by code_simp
  have q: "list_all quiet [Tick 9000, TimerFired 1, Disconnected, Connected]" by simp
  from exit_cancels_before_first_fetch [OF refl r v l refl] q
  have "pendingTimers (step (Intersection 1 [False]) ?w) = [] \<and>
        requests (run [Tick 9000, TimerFired 1, Disconnected, Connected]
          (step (Intersection 1 [False]) ?w)) = []"
    by blast
  with p r v l show ?thesis by blast
qed

text \<open>
  Leaving the viewport in a later cycle. With no timer armed and every image settled,
  inputs that do not report the element as intersecting start no fetch, dispatch no
  event and arm no timer.
\<close>

lemma settled_intersectionEntry:
  assumes "pendingTimers w = []"
  shows "requests (intersectionEntry False w) = requests w \<and>
         dispatched (intersectionEntry False w) = dispatched w \<and>
         pendingTimers (intersectionEntry False w) = []"
  using assms
  by (auto simp: intersectionEntry_def handleViewportExit_def split: option.splits)

lemma settled_observerCallback:
  assumes "True \<notin> set es" and "pendingTimers w = []"
  shows "requests (observerCallback es w) = requests w \<and>
         dispatched (observerCallback es w) = dispatched w \<and>
         pendingTimers (observerCallback es w) = []"
  using assms
proof (induction es arbitrary: w)
  case Nil
  then show ?case by (simp add: observerCallback_def)
next
  case (Cons e es)
  then have e: "e = False" and es: "True \<notin> set es" by auto
  from settled_intersectionEntry [OF Cons.prems(2)]
  have 1: "requests (intersectionEntry False w) = requests w"
    "dispatched (intersectionEntry False w) = dispatched w"
    "pendingTimers (intersectionEntry False w) = []" by simp_all
  from Cons.IH [OF es 1(3)] 1(1,2) e show ?case by (simp add: observerCallback_def)
qed

lemma settled_step:
  assumes "quiet i" and "pendingTimers w = []" and "\<forall>r \<in> set (requests w). settled r"
  shows "requests (step i w) = requests w \<and> dispatched (step i w) = dispatched w \<and>
         pendingTimers (step i w) = []"
proof (cases i)
  case Connected
  with assms show ?thesis by (simp add: connectedCallback_def)
next
  case Disconnected
  with assms show ?thesis
    by (auto simp: disconnectedCallback_def cleanupTimer_def split: option.splits)
next
  case (AttributeChanged name v)
  with assms show ?thesis by (simp add: attributeChangedCallback_def Let_def)
next
  case (Intersection ob es)
  with assms settled_observerCallback [of es w] show ?thesis by simp
next
  case (TimerFired t)
  with assms show ?thesis by simp
next
  case (ImageLoaded k)
  from assms(3) have "k < length (requests w) \<longrightarrow> settled (requests w ! k)" by simp
  with ImageLoaded assms(2) show ?thesis by auto
next
  case (ImageFailed k)
  from assms(3) have "k < length (requests w) \<longrightarrow> settled (requests w ! k)" by simp
  with ImageFailed assms(2) show ?thesis by auto
next
  case (Tick t)
  with assms show ?thesis by simp
qed

lemma settled_run:
  assumes "list_all quiet later" and "pendingTimers w = []"
    and "\<forall>r \<in> set (requests w). settled r"
  shows "requests (run later w) = requests w \<and> dispatched (run later w) = dispatched w \<and>
         pendingTimers (run later w) = []"
  using assms
proof (induction later arbitrary: w)
  case Nil
  then show ?case by (simp add: run_def)
next
  case (Cons i later)
  then have q: "quiet i" and l: "list_all quiet later" by simp_all
  from settled_step [OF q Cons.prems(2,3)]
  have 1: "requests (step i w) = requests w" "dispatched (step i w) = dispatched w"
    "pendingTimers (step i w) = []" by simp_all
  from Cons.prems(3) 1(1) have "\<forall>r \<in> set (requests (step i w)). settled r" by simp
  from Cons.IH [OF l 1(3) this] 1(1,2) show ?case by (simp add: run_def)
qed

text \<open>
  Take any state in which the element is in the viewport, its loaded flag is clear,
  every image it started is settled and the only timer that can be armed is the one
  whose handle it holds. When the observer reports that the element left the viewport,
  no timer stays armed, and no fetch starts and no event is dispatched, then and under
  all further inputs until the observer reports the element as intersecting again.
\<close>

lemma exit_cancels_when_settled:
  assumes "isInViewport w" and "ob \<in> set (liveObservers w)" and "\<not> isImageLoaded w"
    and "loadingTimer w \<noteq> Some 0"
    and "set (pendingTimers w) \<subseteq> (case loadingTimer w of None \<Rightarrow> {} | Some t \<Rightarrow> {t})"
    and "\<forall>r \<in> set (requests w). settled r"
    and "w' = step (Intersection ob [False]) w"
  shows "\<not> isInViewport w' \<and> pendingTimers w' = [] \<and> loadingTimer w' = None \<and>
         requests w' = requests w \<and> dispatched w' = dispatched w \<and>
         (\<forall>later. list_all quiet later \<longrightarrow>
            requests (run later w') = requests w \<and> dispatched (run later w') = dispatched w \<and>
            pendingTimers (run later w') = [])"
proof -
  have w': "w' = handleViewportExit (w\<lparr> isInViewport := False \<rparr>)"
    using assms(1,2,7) by (simp add: observerCallback_def intersectionEntry_def)
  have a: "\<not> isInViewport w'" by (simp add: w')
  have b: "pendingTimers w' = [] \<and> loadingTimer w' = None"
    using assms(3,4,5) unfolding w'
    by (auto simp: handleViewportExit_def removeAll_only split: option.splits)
  have c: "requests w' = requests w \<and> dispatched w' = dispatched w"
    unfolding w' by simp
  from c assms(6) have s: "\<forall>r \<in> set (requests w'). settled r" by simp
  have "\<forall>later. list_all quiet later \<longrightarrow>
            requests (run later w') = requests w \<and> dispatched (run later w') = dispatched w \<and>
            pendingTimers (run later w') = []"
    using settled_run [OF _ _ s] b c by simp
  with a b c show ?thesis by blast
qed

text \<open>
  C7. When an element enters the viewport and leaves it before the fetch of its image
  has started, the pending timer should be cancelled, no fetch should start and no
  event should be dispatched for that cycle. The code does not do this on every
  sequence of events. An element in debug mode starts fetching \<^verbatim>\<open>a.png\<close>; its attribute
  \<^verbatim>\<open>src\<close> changes to \<^verbatim>\<open>b.png\<close>; it leaves the viewport and enters it again, which arms
  the timer 2. No fetch of \<^verbatim>\<open>b.png\<close> has started and no event was dispatched. Now
  \<^verbatim>\<open>a.png\<close> loads and the element leaves the viewport: the loaded flag is set, so
  \<^verbatim>\<open>handleViewportExit\<close> does not cancel the timer. The timer 2 is still armed, the event
  \<^verbatim>\<open>image-loaded\<close> was dispatched between the entry and the exit, and after one more
  attribute change the timer fires and starts fetching \<^verbatim>\<open>b.png\<close> while the element is
  outside the viewport.
\<close>

theorem exit_after_superseded_load_keeps_timer:
  "isInViewport (run [AttributeChanged ''src'' (Some ''a.png''),
      AttributeChanged ''debug'' (Some []), Connected, Intersection 1 [True], TimerFired 1,
      AttributeChanged ''src'' (Some ''b.png''), Intersection 2 [False], Intersection 2 [True]]
      (newElement 1000)) \<and>
   loadingTimer (run [AttributeChanged ''src'' (Some ''a.png''),
      AttributeChanged ''debug'' (Some []), Connected, Intersection 1 [True], TimerFired 1,
      AttributeChanged ''src'' (Some ''b.png''), Intersection 2 [False], Intersection 2 [True]]
      (newElement 1000)) = Some 2 \<and>
   pendingTimers (run [AttributeChanged ''src'' (Some ''a.png''),
      AttributeChanged ''debug'' (Some []), Connected, Intersection 1 [True], TimerFired 1,
      AttributeChanged ''src'' (Some ''b.png''), Intersection 2 [False], Intersection 2 [True]]
      (newElement 1000)) = [2] \<and>
   map requestSrc (requests (run [AttributeChanged ''src'' (Some ''a.png''),
      AttributeChanged ''debug'' (Some []), Connected, Intersection 1 [True], TimerFired 1,
      AttributeChanged ''src'' (Some ''b.png''), Intersection 2 [False], Intersection 2 [True]]
      (newElement 1000))) = [''a.png''] \<and>
   dispatched (run [AttributeChanged ''src'' (Some ''a.png''),
      AttributeChanged ''debug'' (Some []), Connected, Intersection 1 [True], TimerFired 1,
      AttributeChanged ''src'' (Some ''b.png''), Intersection 2 [False], Intersection 2 [True]]
      (newElement 1000)) = [] \<and>
   \<not> isInViewport (run [AttributeChanged ''src'' (Some ''a.png''),
      AttributeChanged ''debug'' (Some []), Connected, Intersection 1 [True], TimerFired 1,
      AttributeChanged ''src'' (Some ''b.png''), Intersection 2 [False], Intersection 2 [True],
      ImageLoaded 0, Intersection 2 [False]] (newElement 1000)) \<and>
   loadingTimer (run [AttributeChanged ''src'' (Some ''a.png''),
      AttributeChanged ''debug'' (Some []), Connected, Intersection 1 [True], TimerFired 1,
      AttributeChanged ''src'' (Some ''b.png''), Intersection 2 [False], Intersection 2 [True],
      ImageLoaded 0, Intersection 2 [False]] (newElement 1000)) = Some 2 \<and>
   pendingTimers (run [AttributeChanged ''src'' (Some ''a.png''),
      AttributeChanged ''debug'' (Some []), Connected, Intersection 1 [True], TimerFired 1,
      AttributeChanged ''src'' (Some ''b.png''), Intersection 2 [False], Intersection 2 [True],
      ImageLoaded 0, Intersection 2 [False]] (newElement 1000)) = [2] \<and>
   dispatched (run [AttributeChanged ''src'' (Some ''a.png''),
      AttributeChanged ''debug'' (Some []), Connected, Intersection 1 [True], TimerFired 1,
      AttributeChanged ''src'' (Some ''b.png''), Intersection 2 [False], Intersection 2 [True],
      ImageLoaded 0, Intersection 2 [False]] (newElement 1000)) =
     [\<lparr> eventType = ''image-loaded'', detailSrc = ''a.png'', bubbles = True,
        composed = True \<rparr>] \<and>
   \<not> isInViewport (run [AttributeChanged ''src'' (Some ''a.png''),
      AttributeChanged ''debug'' (Some []), Connected, Intersection 1 [True], TimerFired 1,
      AttributeChanged ''src'' (Some ''b.png''), Intersection 2 [False], Intersection 2 [True],
      ImageLoaded 0, Intersection 2 [False], AttributeChanged ''alt'' (Some ''x''),
      TimerFired 2] (newElement 1000)) \<and>
   map requestSrc (requests (run [AttributeChanged ''src'' (Some ''a.png''),
      AttributeChanged ''debug'' (Some []), Connected, Intersection 1 [True], TimerFired 1,
      AttributeChanged ''src'' (Some ''b.png''), Intersection 2 [False], Intersection 2 [True],
      ImageLoaded 0, Intersection 2 [False], AttributeChanged ''alt'' (Some ''x''),
      TimerFired 2] (newElement 1000))) = [''a.png'', ''b.png'']"
  by code_simp

text \<open>The handle of a new observer is not the handle of an earlier one.\<close>

lemma observers_fresh_newElement: "observers_fresh (newElement t)"
  by (simp add: observers_fresh_def newElement_def)

lemma observers_fresh_setup:
  "observers_fresh w \<Longrightarrow> observers_fresh (setupIntersectionObserver w)"
  by (auto simp: observers_fresh_def setupIntersectionObserver_def cleanupObserver_def Let_def
      less_Suc_eq split: option.splits)

lemma observers_fresh_cleanup: "observers_fresh w \<Longrightarrow> observers_fresh (cleanupObserver w)"
  by (auto simp: observers_fresh_def cleanupObserver_def split: option.splits)

lemma observers_fresh_cong:
  assumes "observers_fresh w" and "liveObservers w' = liveObservers w"
    and "observer w' = observer w" and "nextObserver w' = nextObserver w"
  shows "observers_fresh w'"
  using assms by (simp add: observers_fresh_def)

lemma observerCallback_observers:
  "liveObservers (observerCallback es w) = liveObservers w \<and>
   observer (observerCallback es w) = observer w \<and>
   nextObserver (observerCallback es w) = nextObserver w"
  unfolding observerCallback_def
  by (induction es arbitrary: w) (simp_all add: intersectionEntry_def)

lemma observers_fresh_step: "observers_fresh w \<Longrightarrow> observers_fresh (step i w)"
proof (cases i)
  case Connected
  then show "observers_fresh w \<Longrightarrow> observers_fresh (step i w)"
    by (auto simp: connectedCallback_def intro!: observers_fresh_setup
        elim: observers_fresh_cong)
next
  case Disconnected
  then show "observers_fresh w \<Longrightarrow> observers_fresh (step i w)"
    by (auto simp: observers_fresh_def disconnectedCallback_def cleanupTimer_def
        cleanupObserver_def split: option.splits)
next
  case (AttributeChanged name v)
  assume f: "observers_fresh w"
  let ?u1 = "w\<lparr> attributes := (attributes w)(name := v) \<rparr>"
  let ?u2 = "?u1\<lparr> isImageLoaded := False, isImageError := False, loadStartTime := None \<rparr>"
  from f have a: "observers_fresh ?u1" by (simp add: observers_fresh_def)
  from f have b: "observers_fresh (render ?u2)" by (simp add: observers_fresh_def)
  then have c: "observers_fresh (setupIntersectionObserver (render ?u2))"
    by (rule observers_fresh_setup)
  from a b c show "observers_fresh (step i w)"
    unfolding AttributeChanged by (simp add: attributeChangedCallback_def Let_def)
next
  case (Intersection ob es)
  then show "observers_fresh w \<Longrightarrow> observers_fresh (step i w)"
    using observerCallback_observers [of es w] by (auto elim: observers_fresh_cong)
next
  case (TimerFired t)
  then show "observers_fresh w \<Longrightarrow> observers_fresh (step i w)"
    by (auto simp: observers_fresh_def timerCallback_def)
next
  case (ImageLoaded k)
  then show "observers_fresh w \<Longrightarrow> observers_fresh (step i w)"
    by (auto simp: observers_fresh_def onload_def settle_def dispatchEvent_def Let_def
        split: option.splits)
next
  case (ImageFailed k)
  then show "observers_fresh w \<Longrightarrow> observers_fresh (step i w)"
    by (auto simp: observers_fresh_def onerror_def settle_def dispatchEvent_def Let_def
        split: option.splits)
next
  case (Tick t)
  then show "observers_fresh w \<Longrightarrow> observers_fresh (step i w)"
    by (simp add: observers_fresh_def)
qed

lemma observers_fresh_run: "observers_fresh w \<Longrightarrow> observers_fresh (run is w)"
  unfolding run_def
  by (induction "is" arbitrary: w) (simp_all add: observers_fresh_step)

lemma render_layers_fresh:
  assumes "blurhashLayer (render w) = Some n \<or> imageLayer (render w) = Some n \<or>
           errorLayer (render w) = Some n"
  shows "nextNode w \<le> n \<and> n < nextNode (render w)"
  using assms by (auto simp: render_def Let_def split: if_splits)

lemma setup_layers [simp]:
  "blurhashLayer (setupIntersectionObserver w) = blurhashLayer w"
  "imageLayer (setupIntersectionObserver w) = imageLayer w"
  "errorLayer (setupIntersectionObserver w) = errorLayer w"
  "nextNode (setupIntersectionObserver w) = nextNode w"
  by (simp_all add: setupIntersectionObserver_def cleanupObserver_def Let_def
      split: option.splits)

text \<open>
  C3 (as the code has it). When an observed attribute of an element changes to a
  different value, the loaded and errored flags and the start time are cleared and
  the shadow tree is rendered afresh, with new layers. For an attribute other than
  \<^verbatim>\<open>debug\<close> and \<^verbatim>\<open>debug-delay\<close> the visibility observer is disconnected and a new
  one is created and connected; for \<^verbatim>\<open>debug\<close> and \<^verbatim>\<open>debug-delay\<close> the observer is kept.
\<close>

theorem attribute_change_resets:
  assumes "w = run inputs (newElement t)" and "name \<in> set observedAttributes"
    and "attributes w name \<noteq> v" and "w' = step (AttributeChanged name v) w"
  shows "\<not> isImageLoaded w' \<and> \<not> isImageError w' \<and> loadStartTime w' = None \<and>
         (\<forall>n. blurhashLayer w' = Some n \<or> imageLayer w' = Some n \<or> errorLayer w' = Some n \<longrightarrow>
            nextNode w \<le> n \<and> n < nextNode w') \<and>
         (name \<noteq> ''debug'' \<and> name \<noteq> ''debug-delay'' \<longrightarrow>
            (\<forall>old. observer w = Some old \<longrightarrow> old \<notin> set (liveObservers w')) \<and>
            observer w' = Some (nextObserver w) \<and>
            nextObserver w \<in> set (liveObservers w') \<and>
            nextObserver w \<notin> set (liveObservers w) \<and>
            observer w \<noteq> Some (nextObserver w)) \<and>
         (name = ''debug'' \<or> name = ''debug-delay'' \<longrightarrow>
            observer w' = observer w \<and> liveObservers w' = liveObservers w)"
proof -
  have f: "observers_fresh w"
    using observers_fresh_run [OF observers_fresh_newElement] assms(1) by simp
  define u where "u = w\<lparr> attributes := (attributes w)(name := v), isImageLoaded := False,
      isImageError := False, loadStartTime := None \<rparr>"
  have n: "nextNode u = nextNode w" by (simp add: u_def)
  have w': "w' = (if name = ''debug'' \<or> name = ''debug-delay'' then render u
                  else setupIntersectionObserver (render u))"
    using assms(2,3,4) by (simp add: attributeChangedCallback_def Let_def u_def)
  have flags: "\<not> isImageLoaded w' \<and> \<not> isImageError w' \<and> loadStartTime w' = None"
    by (simp add: w' u_def)
  have layers: "\<forall>n. blurhashLayer w' = Some n \<or> imageLayer w' = Some n \<or>
      errorLayer w' = Some n \<longrightarrow> nextNode w \<le> n \<and> n < nextNode w'"
    using render_layers_fresh [of u] n by (auto simp: w')
  have keep: "name = ''debug'' \<or> name = ''debug-delay'' \<longrightarrow>
            observer w' = observer w \<and> liveObservers w' = liveObservers w"
    by (simp add: w' u_def)
  have renew: "name \<noteq> ''debug'' \<and> name \<noteq> ''debug-delay'' \<longrightarrow>
            (\<forall>old. observer w = Some old \<longrightarrow> old \<notin> set (liveObservers w')) \<and>
            observer w' = Some (nextObserver w) \<and>
            nextObserver w \<in> set (liveObservers w') \<and>
            nextObserver w \<notin> set (liveObservers w) \<and>
            observer w \<noteq> Some (nextObserver w)"
    using f
    by (auto simp: w' u_def observers_fresh_def setupIntersectionObserver_def
        cleanupObserver_def Let_def split: option.splits)
  from flags layers keep renew show ?thesis by blast
qed

text \<open>
  A loaded element whose source changes: the flag is cleared, the observer 1 is
  disconnected and the observer 2 takes its place.
\<close>

theorem attribute_change_resets_witness:
  "''src'' \<in> set observedAttributes \<and>
   attributes (run [AttributeChanged ''src'' (Some ''a.png''), Connected, Intersection 1 [True],
      ImageLoaded 0] (newElement 1000)) ''src'' \<noteq> Some ''b.png'' \<and>
   isImageLoaded (run [AttributeChanged ''src'' (Some ''a.png''), Connected,
      Intersection 1 [True], ImageLoaded 0] (newElement 1000)) \<and>
   observer (run [AttributeChanged ''src'' (Some ''a.png''), Connected, Intersection 1 [True],
      ImageLoaded 0] (newElement 1000)) = Some 1 \<and>
   \<not> isImageLoaded (step (AttributeChanged ''src'' (Some ''b.png''))
      (run [AttributeChanged ''src'' (Some ''a.png''), Connected, Intersection 1 [True],
        ImageLoaded 0] (newElement 1000))) \<and>
   observer (step (AttributeChanged ''src'' (Some ''b.png''))
      (run [AttributeChanged ''src'' (Some ''a.png''), Connected, Intersection 1 [True],
        ImageLoaded 0] (newElement 1000))) = Some 2 \<and>
   1 \<notin> set (liveObservers (step (AttributeChanged ''src'' (Some ''b.png''))
      (run [AttributeChanged ''src'' (Some ''a.png''), Connected, Intersection 1 [True],
        ImageLoaded 0] (newElement 1000))))"
proof -
  let ?w = "run [AttributeChanged ''src'' (Some ''a.png''), Connected, Intersection 1 [True],
      ImageLoaded 0] (newElement 1000)"
  have o: "''src'' \<in> set observedAttributes" by (simp add: observedAttributes_def)
  have a: "attributes ?w ''src'' \<noteq> Some ''b.png''" by code_simp
  have l: "isImageLoaded ?w" by code_simp
  have b: "observer ?w = Some 1" by code_simp
  have n: "nextObserver ?w = 2" by code_simp
  from attribute_change_resets [OF refl o a refl] b n
  have "\<not> isImageLoaded (step (AttributeChanged ''src'' (Some ''b.png'')) ?w) \<and>
        observer (step (AttributeChanged ''src'' (Some ''b.png'')) ?w) = Some 2 \<and>
        1 \<notin> set (liveObservers (step (AttributeChanged ''src'' (Some ''b.png'')) ?w))"
    by simp
  with o a l b show ?thesis by blast
qed

text \<open>
  C3 as stated fails. An element in debug mode is in the viewport with the timer 1
  armed and the observer 1 connected; its attribute \<^verbatim>\<open>debug-delay\<close> changes. Afterwards
  the observer is still the observer 1, the timer 1 is still armed, and when it fires it
  starts a fetch.
\<close>

theorem attribute_change_debug_delay_counterexample:
  "''debug-delay'' \<in> set observedAttributes \<and>
   attributes (run [AttributeChanged ''src'' (Some ''a.png''),
      AttributeChanged ''debug'' (Some []), Connected, Intersection 1 [True]]
      (newElement 1000)) ''debug-delay'' \<noteq> Some ''100'' \<and>
   observer (run [AttributeChanged ''src'' (Some ''a.png''),
      AttributeChanged ''debug'' (Some []), Connected, Intersection 1 [True]]
      (newElement 1000)) = Some 1 \<and>
   loadingTimer (run [AttributeChanged ''src'' (Some ''a.png''),
      AttributeChanged ''debug'' (Some []), Connected, Intersection 1 [True]]
      (newElement 1000)) = Some 1 \<and>
   pendingTimers (run [AttributeChanged ''src'' (Some ''a.png''),
      AttributeChanged ''debug'' (Some []), Connected, Intersection 1 [True]]
      (newElement 1000)) = [1] \<and>
   observer (step (AttributeChanged ''debug-delay'' (Some ''100''))
     (run [AttributeChanged ''src'' (Some ''a.png''),
        AttributeChanged ''debug'' (Some []), Connected, Intersection 1 [True]]
        (newElement 1000))) = Some 1 \<and>
   liveObservers (step (AttributeChanged ''debug-delay'' (Some ''100''))
     (run [AttributeChanged ''src'' (Some ''a.png''),
        AttributeChanged ''debug'' (Some []), Connected, Intersection 1 [True]]
        (newElement 1000))) = [1] \<and>
   loadingTimer (step (AttributeChanged ''debug-delay'' (Some ''100''))
     (run [AttributeChanged ''src'' (Some ''a.png''),
        AttributeChanged ''debug'' (Some []), Connected, Intersection 1 [True]]
        (newElement 1000))) = Some 1 \<and>
   pendingTimers (step (AttributeChanged ''debug-delay'' (Some ''100''))
     (run [AttributeChanged ''src'' (Some ''a.png''),
        AttributeChanged ''debug'' (Some []), Connected, Intersection 1 [True]]
        (newElement 1000))) = [1] \<and>
   map requestSrc (requests (run [AttributeChanged ''debug-delay'' (Some ''100''), TimerFired 1]
     (run [AttributeChanged ''src'' (Some ''a.png''),
        AttributeChanged ''debug'' (Some []), Connected, Intersection 1 [True]]
        (newElement 1000)))) = [''a.png'']"
  by code_simp

text \<open>
  Every state that a new element reaches is \<open>tracked\<close>. The fields that \<open>tracked\<close> does
  not read may change freely.
\<close>

lemma tracked_update [simp]:
  "tracked (w\<lparr> isInViewport := a \<rparr>) = tracked w"
  "tracked (w\<lparr> pendingTimers := b \<rparr>) = tracked w"
  "tracked (w\<lparr> loadingTimer := c \<rparr>) = tracked w"
  "tracked (w\<lparr> nextTimer := d \<rparr>) = tracked w"
  "tracked (w\<lparr> isImageLoaded := e \<rparr>) = tracked w"
  "tracked (w\<lparr> isImageError := f \<rparr>) = tracked w"
  "tracked (w\<lparr> dispatched := g \<rparr>) = tracked w"
  "tracked (w\<lparr> clock := h \<rparr>) = tracked w"
  "tracked (w\<lparr> observer := i \<rparr>) = tracked w"
  "tracked (w\<lparr> liveObservers := j \<rparr>) = tracked w"
  "tracked (w\<lparr> nextObserver := k \<rparr>) = tracked w"
  by (simp_all add: tracked_def)
























lemma srcAttr_addClass [simp]: "srcAttr (nodes (addClass n c w) m) = srcAttr (nodes w m)"
  by (simp add: addClass_def)






end
